theory Spec2Isabelle
  imports Main "HOL-Library.Sublist" "HOL-Library.Extended_Nat" "HOL-Library.Multiset"
begin

section \<open>Data model (types.ts, App.vue)\<close>

text \<open>
  Strings are char lists; one char stands for one code unit of the JavaScript string
  (code units from 0x100 on are outside the model). Identifiers are the bookmark ids the
  browser hands out, hence plain strings.
\<close>

record TabItem =
  tab_id :: string
  title :: string
  url :: string
  favicon :: string

text \<open>
  The view-model stores an extra \<open>expanded\<close> flag on every collection object
  (App.vue reads \<open>c.expanded || false\<close> and \<open>!collection.expanded\<close>), so a missing
  flag and \<open>false\<close> are the same value here.
\<close>

record Collection =
  col_id :: string
  col_name :: string
  tabs :: "TabItem list"
  col_createdAt :: nat
  groupId :: string
  expanded :: bool

record Group =
  grp_id :: string
  grp_name :: string
  grp_createdAt :: nat

text \<open>The \<open>BrowserTab\<close> interface of App.vue: every field is optional.\<close>

record BrowserTab =
  bt_id :: "nat option"
  bt_url :: "string option"
  bt_title :: "string option"
  favIconUrl :: "string option"

text \<open>A node of the browser's bookmark tree, as \<open>browser.bookmarks\<close> returns it.\<close>

record node =
  node_id :: string
  node_title :: string
  node_url :: "string option"
  dateAdded :: "nat option"

record CollectionUIState =
  ui_expanded :: bool
  ui_order :: nat

type_synonym CollectionUIStates = "string \<rightharpoonup> CollectionUIState"

subsection \<open>The browser, as the extension sees it\<close>

text \<open>
  The bookmark tree, the open tabs and the dialogs belong to the browser. Their state is
  an abstract world \<open>'w\<close>; every API call is a transition of that world which also
  yields the call's outcome: \<open>None\<close> or \<open>False\<close> is a rejected promise (a
  thrown exception after \<open>await\<close>).
\<close>

record 'w browser =
  bookmarks_get :: "string \<Rightarrow> 'w \<Rightarrow> bool \<times> 'w"
  bookmarks_search :: "string \<Rightarrow> 'w \<Rightarrow> node list option \<times> 'w"
  bookmarks_create :: "string \<Rightarrow> string \<Rightarrow> string option \<Rightarrow> 'w \<Rightarrow> node option \<times> 'w"
  bookmarks_update :: "string \<Rightarrow> string \<Rightarrow> 'w \<Rightarrow> bool \<times> 'w"
  bookmarks_move :: "string \<Rightarrow> string \<Rightarrow> nat option \<Rightarrow> 'w \<Rightarrow> bool \<times> 'w"
  bookmarks_remove :: "string \<Rightarrow> 'w \<Rightarrow> bool \<times> 'w"
  bookmarks_removeTree :: "string \<Rightarrow> 'w \<Rightarrow> bool \<times> 'w"
  tabs_query :: "bool \<Rightarrow> 'w \<Rightarrow> BrowserTab list option \<times> 'w"
  confirm_dialog :: "'w \<Rightarrow> bool \<times> 'w"
  date_now :: "'w \<Rightarrow> nat"
  url_hostname :: "string \<Rightarrow> string option"
  storage_available :: bool
  storage_get_ok :: "'w \<Rightarrow> bool \<times> 'w"
  storage_set_ok :: "'w \<Rightarrow> bool \<times> 'w"

text \<open>
  The calls App.vue makes across its boundary (the functions imported from storage.ts and
  the direct \<open>browser.*\<close> calls). The view-model records them in a ghost trace, so
  that "no adapter call is made" is a statement about the state.
\<close>

datatype adapter_call =
    CreateGroupInBookmarks string
  | DeleteGroupInBookmarks string
  | UpdateGroupInBookmarks string string
  | CreateCollectionInBookmarks string string
  | DeleteCollectionInBookmarks string
  | UpdateCollectionInBookmarks string string
  | AddTabToCollection string string string string
  | RemoveTabFromCollection string
  | MoveTab string string
  | MoveGroupToIndex string nat
  | BookmarksUpdate string string
  | TabsQuery
  | LoadCollectionUIStates
  | SaveCollectionUIStates
  | RemoveCollectionUIState string

text \<open>
  The reactive fields of App.vue, the module variable \<open>rootFolderId\<close> of storage.ts,
  the content of \<open>browser.storage.local\<close> under the UI-state key, the browser's world
  and the ghost trace.
\<close>

record 'w app =
  collections :: "Collection list"
  groups :: "Group list"
  selectedGroupId :: string
  showAddCollection :: bool
  showAddGroup :: bool
  newCollectionName :: string
  newGroupName :: string
  editingCollectionId :: "string option"
  editingGroupId :: "string option"
  editingTabId :: "string option"
  editingName :: string
  draggedTab :: "(string \<times> string) option"
  draggedOpenTab :: "BrowserTab option"
  dragOverCollectionId :: "string option"
  draggedCollection :: "string option"
  dragOverCollectionForSort :: "string option"
  dragOverTabId :: "string option"
  draggedGroup :: "string option"
  dragOverGroupId :: "string option"
  rootFolderId :: "string option"
  ui_store :: CollectionUIStates
  world :: 'w
  calls :: "adapter_call list"

section \<open>JavaScript built-ins used by the handlers\<close>

text \<open>\<open>Array.prototype.findIndex\<close>: \<open>None\<close> is the source's \<open>-1\<close>.\<close>

fun findIndex :: "('a \<Rightarrow> bool) \<Rightarrow> 'a list \<Rightarrow> nat option" where
  "findIndex P [] = None"
| "findIndex P (x # xs) =
     (if P x then Some 0 else map_option Suc (findIndex P xs))"

text \<open>\<open>xs.splice(i, 1)\<close> and \<open>xs.splice(i, 0, x)\<close>; an index beyond the end is
  clamped to the length, which \<open>take\<close> and \<open>drop\<close> do as well.\<close>

definition splice_out :: "nat \<Rightarrow> 'a list \<Rightarrow> 'a list" where
  "splice_out i xs = take i xs @ drop (Suc i) xs"

definition splice_in :: "nat \<Rightarrow> 'a \<Rightarrow> 'a list \<Rightarrow> 'a list" where
  "splice_in i x xs = take i xs @ x # drop i xs"

text \<open>Truthiness of a string and of an optional string.\<close>

definition truthy :: "string \<Rightarrow> bool" where
  "truthy s = (s \<noteq> [])"

definition truthy_opt :: "string option \<Rightarrow> bool" where
  "truthy_opt u = (case u of None \<Rightarrow> False | Some s \<Rightarrow> truthy s)"

text \<open>\<open>a || b\<close> on an optional string with a string default.\<close>

definition or_else :: "string option \<Rightarrow> string \<Rightarrow> string" where
  "or_else u d = (case u of None \<Rightarrow> d | Some s \<Rightarrow> if truthy s then s else d)"

text \<open>\<open>String.prototype.trim\<close>: white space and line terminators below 0x100.\<close>

definition is_ws :: "char \<Rightarrow> bool" where
  "is_ws c = (c \<in> set [CHR 0x09, CHR 0x0A, CHR 0x0B, CHR 0x0C, CHR 0x0D, CHR 0x20, CHR 0xA0])"

definition js_trim :: "string \<Rightarrow> string" where
  "js_trim s = rev (dropWhile is_ws (rev (dropWhile is_ws s)))"

text \<open>
  An object found with \<open>find\<close> is mutated in place: the first element that satisfies
  the predicate is the one that changes.
\<close>

fun update_first :: "('a \<Rightarrow> bool) \<Rightarrow> ('a \<Rightarrow> 'a) \<Rightarrow> 'a list \<Rightarrow> 'a list" where
  "update_first P f [] = []"
| "update_first P f (x # xs) = (if P x then f x # xs else x # update_first P f xs)"

definition set_tabs :: "string \<Rightarrow> TabItem list \<Rightarrow> Collection list \<Rightarrow> Collection list" where
  "set_tabs cid ts cs = update_first (\<lambda>c. col_id c = cid) (\<lambda>c. c\<lparr>tabs := ts\<rparr>) cs"

definition find_collection :: "string \<Rightarrow> Collection list \<Rightarrow> Collection option" where
  "find_collection cid cs = find (\<lambda>c. col_id c = cid) cs"

section \<open>Drag markers (App.vue)\<close>

definition onDragStart :: "string \<Rightarrow> string \<Rightarrow> 'w app \<Rightarrow> 'w app" where
  "onDragStart collectionId tabId s =
     s\<lparr>draggedTab := Some (collectionId, tabId), draggedOpenTab := None\<rparr>"

definition onDragStartOpenTab :: "BrowserTab \<Rightarrow> 'w app \<Rightarrow> 'w app" where
  "onDragStartOpenTab tab s = s\<lparr>draggedOpenTab := Some tab, draggedTab := None\<rparr>"

definition onDragEnd :: "'w app \<Rightarrow> 'w app" where
  "onDragEnd s =
     s\<lparr>draggedTab := None, draggedOpenTab := None, dragOverCollectionId := None,
       draggedCollection := None, dragOverCollectionForSort := None, dragOverTabId := None\<rparr>"

definition onCollectionDragStart :: "string \<Rightarrow> 'w app \<Rightarrow> 'w app" where
  "onCollectionDragStart collectionId s =
     s\<lparr>draggedCollection := Some collectionId, draggedTab := None, draggedOpenTab := None\<rparr>"

definition onGroupDragStart :: "string \<Rightarrow> 'w app \<Rightarrow> 'w app" where
  "onGroupDragStart gid s = s\<lparr>draggedGroup := Some gid\<rparr>"

definition onGroupDragEnd :: "'w app \<Rightarrow> 'w app" where
  "onGroupDragEnd s = s\<lparr>draggedGroup := None, dragOverGroupId := None\<rparr>"

text \<open>The number of drag markers that are set (non-null).\<close>

definition markers_set :: "'w app \<Rightarrow> nat" where
  "markers_set s =
     (if draggedTab s = None then 0 else 1) + (if draggedOpenTab s = None then 0 else 1)
     + (if draggedCollection s = None then 0 else 1) + (if draggedGroup s = None then 0 else 1)"

text \<open>The state of a freshly created component (the initial values of the refs).\<close>

definition init_app :: "'w \<Rightarrow> 'w app" where
  "init_app w =
     \<lparr>collections = [], groups = [], selectedGroupId = [], showAddCollection = False,
      showAddGroup = False, newCollectionName = [], newGroupName = [],
      editingCollectionId = None, editingGroupId = None, editingTabId = None,
      editingName = [], draggedTab = None, draggedOpenTab = None,
      dragOverCollectionId = None, draggedCollection = None,
      dragOverCollectionForSort = None, dragOverTabId = None, draggedGroup = None,
      dragOverGroupId = None, rootFolderId = None, ui_store = Map.empty, world = w,
      calls = []\<rparr>"

section \<open>The bookmark-tree adapter (storage.ts)\<close>

text \<open>
  Every adapter function runs on the application state, because it moves the browser's
  world on and \<open>getOrCreateRootFolder\<close> writes the module variable
  \<open>rootFolderId\<close>. The first component of the result is the resolved value;
  \<open>None\<close> (or \<open>False\<close> for a \<open>Promise<void>\<close>) is a rejection.
\<close>

definition ROOT_FOLDER_NAME :: string where
  "ROOT_FOLDER_NAME = ''TabManager''"

definition getOrCreateRootFolder :: "'w browser \<Rightarrow> 'w app \<Rightarrow> string option \<times> 'w app" where
  "getOrCreateRootFolder b s =
     (let (cached, s1) =
            (case rootFolderId s of
               None \<Rightarrow> (None, s)
             | Some r \<Rightarrow>
                 if truthy r then
                   (let (ok, w) = bookmarks_get b r (world s)
                    in if ok then (Some r, s\<lparr>world := w\<rparr>)
                       else (None, s\<lparr>rootFolderId := None, world := w\<rparr>))
                 else (None, s))
      in case cached of
           Some r \<Rightarrow> (Some r, s1)
         | None \<Rightarrow>
             (case bookmarks_search b ROOT_FOLDER_NAME (world s1) of
                (None, w) \<Rightarrow> (None, s1\<lparr>world := w\<rparr>)
              | (Some results, w) \<Rightarrow>
                  (case find (\<lambda>n. \<not> truthy_opt (node_url n)) results of
                     Some existing \<Rightarrow>
                       (Some (node_id existing),
                        s1\<lparr>rootFolderId := Some (node_id existing), world := w\<rparr>)
                   | None \<Rightarrow>
                       (case bookmarks_create b ''2'' ROOT_FOLDER_NAME None w of
                          (None, w') \<Rightarrow> (None, s1\<lparr>world := w'\<rparr>)
                        | (Some folder, w') \<Rightarrow>
                            (Some (node_id folder),
                             s1\<lparr>rootFolderId := Some (node_id folder), world := w'\<rparr>)))))"

text \<open>\<open>folder.dateAdded || Date.now()\<close>\<close>

definition createdAt_of :: "'w browser \<Rightarrow> node \<Rightarrow> 'w \<Rightarrow> nat" where
  "createdAt_of b n w =
     (case dateAdded n of
        None \<Rightarrow> date_now b w
      | Some d \<Rightarrow> if d \<noteq> 0 then d else date_now b w)"

text \<open>\<open>getFaviconUrl\<close> of storage.ts; \<open>new URL(url)\<close> throws where
  \<open>url_hostname\<close> is \<open>None\<close>.\<close>

definition getFaviconUrl :: "'w browser \<Rightarrow> string \<Rightarrow> string" where
  "getFaviconUrl b u =
     (case url_hostname b u of
        Some h \<Rightarrow> ''https://www.google.com/s2/favicons?domain='' @ h @ ''&sz=32''
      | None \<Rightarrow> [])"

definition createGroupInBookmarks :: "'w browser \<Rightarrow> string \<Rightarrow> 'w app \<Rightarrow> Group option \<times> 'w app" where
  "createGroupInBookmarks b name s =
     (case getOrCreateRootFolder b s of
        (None, s1) \<Rightarrow> (None, s1)
      | (Some rootId, s1) \<Rightarrow>
          (case bookmarks_create b rootId name None (world s1) of
             (None, w) \<Rightarrow> (None, s1\<lparr>world := w\<rparr>)
           | (Some folder, w) \<Rightarrow>
               (Some \<lparr>grp_id = node_id folder, grp_name = node_title folder,
                      grp_createdAt = createdAt_of b folder w\<rparr>,
                s1\<lparr>world := w\<rparr>)))"

definition createCollectionInBookmarks ::
  "'w browser \<Rightarrow> string \<Rightarrow> string \<Rightarrow> 'w app \<Rightarrow> Collection option \<times> 'w app" where
  "createCollectionInBookmarks b name gid s =
     (case bookmarks_create b gid name None (world s) of
        (None, w) \<Rightarrow> (None, s\<lparr>world := w\<rparr>)
      | (Some folder, w) \<Rightarrow>
          (Some \<lparr>col_id = node_id folder, col_name = node_title folder, tabs = [],
                 col_createdAt = createdAt_of b folder w, groupId = gid, expanded = False\<rparr>,
           s\<lparr>world := w\<rparr>))"

text \<open>
  \<open>addTabToCollection\<close>: the stored url is the one the browser answers
  (\<open>bookmark.url!\<close>); a bookmark answered without a url is read as the empty string.
\<close>

definition addTabToCollection ::
  "'w browser \<Rightarrow> string \<Rightarrow> string \<Rightarrow> string \<Rightarrow> string \<Rightarrow> 'w app \<Rightarrow> TabItem option \<times> 'w app" where
  "addTabToCollection b cid ttl u fav s =
     (case bookmarks_create b cid ttl (Some u) (world s) of
        (None, w) \<Rightarrow> (None, s\<lparr>world := w\<rparr>)
      | (Some bookmark, w) \<Rightarrow>
          (let bu = (case node_url bookmark of Some x \<Rightarrow> x | None \<Rightarrow> [])
           in (Some \<lparr>tab_id = node_id bookmark, title = node_title bookmark, url = bu,
                     favicon = (if truthy fav then fav else getFaviconUrl b bu)\<rparr>,
               s\<lparr>world := w\<rparr>)))"

definition removeTabFromCollection :: "'w browser \<Rightarrow> string \<Rightarrow> 'w app \<Rightarrow> bool \<times> 'w app" where
  "removeTabFromCollection b tid s =
     (let (ok, w) = bookmarks_remove b tid (world s) in (ok, s\<lparr>world := w\<rparr>))"

definition updateGroupInBookmarks :: "'w browser \<Rightarrow> string \<Rightarrow> string \<Rightarrow> 'w app \<Rightarrow> bool \<times> 'w app" where
  "updateGroupInBookmarks b gid name s =
     (let (ok, w) = bookmarks_update b gid name (world s) in (ok, s\<lparr>world := w\<rparr>))"

definition updateCollectionInBookmarks ::
  "'w browser \<Rightarrow> string \<Rightarrow> string \<Rightarrow> 'w app \<Rightarrow> bool \<times> 'w app" where
  "updateCollectionInBookmarks b cid name s =
     (let (ok, w) = bookmarks_update b cid name (world s) in (ok, s\<lparr>world := w\<rparr>))"

definition deleteGroupInBookmarks :: "'w browser \<Rightarrow> string \<Rightarrow> 'w app \<Rightarrow> bool \<times> 'w app" where
  "deleteGroupInBookmarks b gid s =
     (let (ok, w) = bookmarks_removeTree b gid (world s) in (ok, s\<lparr>world := w\<rparr>))"

definition deleteCollectionInBookmarks :: "'w browser \<Rightarrow> string \<Rightarrow> 'w app \<Rightarrow> bool \<times> 'w app" where
  "deleteCollectionInBookmarks b cid s =
     (let (ok, w) = bookmarks_removeTree b cid (world s) in (ok, s\<lparr>world := w\<rparr>))"

definition moveTab :: "'w browser \<Rightarrow> string \<Rightarrow> string \<Rightarrow> 'w app \<Rightarrow> bool \<times> 'w app" where
  "moveTab b tid target s =
     (let (ok, w) = bookmarks_move b tid target None (world s) in (ok, s\<lparr>world := w\<rparr>))"


subsection \<open>The UI-state store (storage.ts)\<close>

text \<open>
  \<open>browser.storage.local\<close> under the key of the UI states is the field
  \<open>ui_store\<close>; a key never written reads as the empty object
  (\<open>result[KEY] || {}\<close>). Both functions swallow a rejection.
\<close>

definition loadCollectionUIStates :: "'w browser \<Rightarrow> 'w app \<Rightarrow> CollectionUIStates \<times> 'w app" where
  "loadCollectionUIStates b s =
     (if \<not> storage_available b then (Map.empty, s)
      else (let (ok, w) = storage_get_ok b (world s)
            in (if ok then ui_store s else Map.empty, s\<lparr>world := w\<rparr>)))"

definition saveCollectionUIStates :: "'w browser \<Rightarrow> CollectionUIStates \<Rightarrow> 'w app \<Rightarrow> 'w app" where
  "saveCollectionUIStates b states s =
     (if \<not> storage_available b then s
      else (let (ok, w) = storage_set_ok b (world s)
            in if ok then s\<lparr>ui_store := states, world := w\<rparr> else s\<lparr>world := w\<rparr>))"

definition removeCollectionUIState :: "'w browser \<Rightarrow> string \<Rightarrow> 'w app \<Rightarrow> 'w app" where
  "removeCollectionUIState b cid s =
     (let (states, s1) = loadCollectionUIStates b s
      in saveCollectionUIStates b (states(cid := None)) s1)"

section \<open>The view-model (App.vue)\<close>

text \<open>
  A handler is a function on the application state. It runs to its end before the next
  handler starts; what the browser answers at each \<open>await\<close> comes from the browser
  record. Console logging and the alert dialogs leave the state untouched and are not
  modelled. Each call of an imported adapter function is appended to \<open>calls\<close> first.
\<close>

definition called :: "adapter_call \<Rightarrow> 'w app \<Rightarrow> 'w app" where
  "called c s = s\<lparr>calls := calls s @ [c]\<rparr>"

subsection \<open>Groups\<close>

definition createGroup :: "'w browser \<Rightarrow> 'w app \<Rightarrow> 'w app" where
  "createGroup b s =
     (let name = js_trim (newGroupName s)
      in if \<not> truthy name then s
         else (case createGroupInBookmarks b name (called (CreateGroupInBookmarks name) s) of
                 (None, s1) \<Rightarrow> s1
               | (Some newGroup, s1) \<Rightarrow>
                   s1\<lparr>groups := groups s1 @ [newGroup], selectedGroupId := grp_id newGroup,
                      newGroupName := [], showAddGroup := False\<rparr>))"

definition deleteGroup :: "'w browser \<Rightarrow> string \<Rightarrow> 'w app \<Rightarrow> 'w app" where
  "deleteGroup b gid s =
     (let (yes, w) = confirm_dialog b (world s); s0 = s\<lparr>world := w\<rparr>
      in if \<not> yes then s0
         else (case deleteGroupInBookmarks b gid (called (DeleteGroupInBookmarks gid) s0) of
                 (False, s1) \<Rightarrow> s1
               | (True, s1) \<Rightarrow>
                   (let s2 = s1\<lparr>collections := filter (\<lambda>c. groupId c \<noteq> gid) (collections s1),
                                groups := filter (\<lambda>g. grp_id g \<noteq> gid) (groups s1)\<rparr>
                    in if selectedGroupId s2 = gid
                       then s2\<lparr>selectedGroupId :=
                                 (case groups s2 of [] \<Rightarrow> [] | g # _ \<Rightarrow> grp_id g)\<rparr>
                       else s2)))"

text \<open>
  \<open>saveGroupName(group)\<close> and \<open>saveCollectionName(collection)\<close> receive an element
  of the rendered list; \<open>i\<close> is its position. The template never passes anything else,
  and the model leaves the state alone for a position outside the list.
\<close>

definition saveGroupName :: "'w browser \<Rightarrow> nat \<Rightarrow> 'w app \<Rightarrow> 'w app" where
  "saveGroupName b i s =
     (if i < length (groups s) then
        (let g = groups s ! i; name = js_trim (editingName s);
             s1 = (if truthy name then
                     (case updateGroupInBookmarks b (grp_id g) name
                             (called (UpdateGroupInBookmarks (grp_id g) name) s) of
                        (True, s') \<Rightarrow> s'\<lparr>groups := (groups s')[i := g\<lparr>grp_name := name\<rparr>]\<rparr>
                      | (False, s') \<Rightarrow> s')
                   else s)
         in s1\<lparr>editingGroupId := None\<rparr>)
      else s)"

definition saveCollectionName :: "'w browser \<Rightarrow> nat \<Rightarrow> 'w app \<Rightarrow> 'w app" where
  "saveCollectionName b i s =
     (if i < length (collections s) then
        (let c = collections s ! i; name = js_trim (editingName s);
             s1 = (if truthy name then
                     (case updateCollectionInBookmarks b (col_id c) name
                             (called (UpdateCollectionInBookmarks (col_id c) name) s) of
                        (True, s') \<Rightarrow>
                          s'\<lparr>collections := (collections s')[i := c\<lparr>col_name := name\<rparr>]\<rparr>
                      | (False, s') \<Rightarrow> s')
                   else s)
         in s1\<lparr>editingCollectionId := None\<rparr>)
      else s)"

definition bookmarksUpdate :: "'w browser \<Rightarrow> string \<Rightarrow> string \<Rightarrow> 'w app \<Rightarrow> bool \<times> 'w app" where
  "bookmarksUpdate b tid ttl s =
     (let (ok, w) = bookmarks_update b tid ttl (world s) in (ok, s\<lparr>world := w\<rparr>))"

definition saveTabName :: "'w browser \<Rightarrow> string \<Rightarrow> string \<Rightarrow> 'w app \<Rightarrow> 'w app" where
  "saveTabName b cid tid s =
     (let s1 =
        (case find_collection cid (collections s) of
           None \<Rightarrow> s
         | Some collection \<Rightarrow>
             (let name = js_trim (editingName s)
              in case find (\<lambda>t. tab_id t = tid) (tabs collection) of
                   None \<Rightarrow> s
                 | Some tab \<Rightarrow>
                     if truthy name then
                       (case bookmarksUpdate b tid name (called (BookmarksUpdate tid name) s) of
                          (True, s') \<Rightarrow>
                            s'\<lparr>collections :=
                                 set_tabs cid
                                   (update_first (\<lambda>t. tab_id t = tid) (\<lambda>t. t\<lparr>title := name\<rparr>)
                                      (tabs collection))
                                   (collections s')\<rparr>
                        | (False, s') \<Rightarrow> s')
                     else s))
      in s1\<lparr>editingTabId := None\<rparr>)"



subsection \<open>Collections\<close>

definition createCollection :: "'w browser \<Rightarrow> 'w app \<Rightarrow> 'w app" where
  "createCollection b s =
     (let name = js_trim (newCollectionName s)
      in if \<not> truthy name \<or> \<not> truthy (selectedGroupId s) then s
         else (case createCollectionInBookmarks b name (selectedGroupId s)
                      (called (CreateCollectionInBookmarks name (selectedGroupId s)) s) of
                 (None, s1) \<Rightarrow> s1
               | (Some newCollection, s1) \<Rightarrow>
                   s1\<lparr>collections := collections s1 @ [newCollection],
                      newCollectionName := [], showAddCollection := False\<rparr>))"

text \<open>\<open>collections.value.forEach((c, index) => states[c.id] = {...})\<close>, from
  position \<open>index\<close> on.\<close>

fun order_states :: "nat \<Rightarrow> Collection list \<Rightarrow> CollectionUIStates \<Rightarrow> CollectionUIStates" where
  "order_states index [] states = states"
| "order_states index (c # cs) states =
     order_states (Suc index) cs
       (states(col_id c \<mapsto> \<lparr>ui_expanded = expanded c, ui_order = index\<rparr>))"

definition saveCollectionOrder :: "'w browser \<Rightarrow> 'w app \<Rightarrow> 'w app" where
  "saveCollectionOrder b s =
     (let (states, s1) = loadCollectionUIStates b (called LoadCollectionUIStates s)
      in saveCollectionUIStates b (order_states 0 (collections s1) states)
           (called SaveCollectionUIStates s1))"

definition clear_collection_drag :: "'w app \<Rightarrow> 'w app" where
  "clear_collection_drag s = s\<lparr>draggedCollection := None, dragOverCollectionForSort := None\<rparr>"

definition onCollectionDrop :: "'w browser \<Rightarrow> string \<Rightarrow> 'w app \<Rightarrow> 'w app" where
  "onCollectionDrop b target s =
     (case draggedCollection s of
        None \<Rightarrow> clear_collection_drag s
      | Some dragged \<Rightarrow>
          if \<not> truthy dragged \<or> dragged = target then clear_collection_drag s
          else
            (case (findIndex (\<lambda>c. col_id c = dragged) (collections s),
                   findIndex (\<lambda>c. col_id c = target) (collections s)) of
               (Some sourceIndex, Some targetIndex) \<Rightarrow>
                 (let movedCollection = collections s ! sourceIndex;
                      s1 = s\<lparr>collections := splice_in targetIndex movedCollection
                                               (splice_out sourceIndex (collections s))\<rparr>
                  in clear_collection_drag (saveCollectionOrder b s1))
             | _ \<Rightarrow> clear_collection_drag s))"

text \<open>
  The part of \<open>onMounted\<close> that turns the loaded collections into the displayed list:
  the expanded flag comes from the UI states, then the list is sorted by the stored order,
  a collection without one counting as \<open>Infinity\<close>. \<open>Array.prototype.sort\<close> is
  stable, and the comparator \<open>orderA - orderB\<close> is the order of the keys
  (\<open>Infinity - Infinity\<close> is \<open>NaN\<close>, which \<open>sort\<close> reads as equal).
\<close>

definition order_key :: "CollectionUIStates \<Rightarrow> Collection \<Rightarrow> enat" where
  "order_key uiStates c =
     (case uiStates (col_id c) of None \<Rightarrow> \<infinity> | Some st \<Rightarrow> enat (ui_order st))"

definition mounted_collections :: "CollectionUIStates \<Rightarrow> Collection list \<Rightarrow> Collection list" where
  "mounted_collections uiStates loaded =
     sort_key (order_key uiStates)
       (map (\<lambda>c. c\<lparr>expanded :=
                     (case uiStates (col_id c) of None \<Rightarrow> False | Some st \<Rightarrow> ui_expanded st)\<rparr>)
          loaded)"

subsection \<open>Tabs\<close>

definition excludeUrls :: "string list" where
  "excludeUrls =
     [''chrome://'', ''chrome-extension://'', ''about:'', ''edge://'', ''brave://'',
      ''javascript:'']"

definition isValidTabUrl :: "string option \<Rightarrow> bool" where
  "isValidTabUrl u =
     (case u of
        None \<Rightarrow> False
      | Some x \<Rightarrow> truthy x \<and> \<not> list_ex (\<lambda>p. prefix p x) excludeUrls)"

text \<open>\<open>collection.tabs.push(newTab)\<close> on the collection object found before.\<close>

definition push_tab :: "string \<Rightarrow> TabItem \<Rightarrow> Collection list \<Rightarrow> Collection list" where
  "push_tab cid t cs = update_first (\<lambda>c. col_id c = cid) (\<lambda>c. c\<lparr>tabs := tabs c @ [t]\<rparr>) cs"

text \<open>The loop of \<open>saveCurrentTabs\<close>; \<open>existingUrls\<close> is computed once, before it.\<close>

fun saveTabsLoop ::
  "'w browser \<Rightarrow> string \<Rightarrow> string list \<Rightarrow> BrowserTab list \<Rightarrow> 'w app \<Rightarrow> 'w app" where
  "saveTabsLoop b cid existingUrls [] s = s"
| "saveTabsLoop b cid existingUrls (tab # rest) s =
     saveTabsLoop b cid existingUrls rest
       (case bt_url tab of
          None \<Rightarrow> s
        | Some u \<Rightarrow>
            if isValidTabUrl (Some u) \<and> u \<notin> set existingUrls then
              (let ttl = or_else (bt_title tab) ''Untitled'';
                   fav = or_else (favIconUrl tab) []
               in case addTabToCollection b cid ttl u fav
                         (called (AddTabToCollection cid ttl u fav) s) of
                    (Some newTab, s') \<Rightarrow> s'\<lparr>collections := push_tab cid newTab (collections s')\<rparr>
                  | (None, s') \<Rightarrow> s')
            else s)"

text \<open>
  \<open>saveCurrentTabs\<close>: a rejected \<open>tabs.query\<close> ends the handler before it touches
  anything.
\<close>

definition saveCurrentTabs :: "'w browser \<Rightarrow> string \<Rightarrow> 'w app \<Rightarrow> 'w app" where
  "saveCurrentTabs b cid s =
     (let s0 = called TabsQuery s
      in case tabs_query b True (world s0) of
           (None, w) \<Rightarrow> s0\<lparr>world := w\<rparr>
         | (Some window_tabs, w) \<Rightarrow>
             (case find_collection cid (collections s0) of
                None \<Rightarrow> s0\<lparr>world := w\<rparr>
              | Some collection \<Rightarrow>
                  saveTabsLoop b cid (map url (tabs collection)) window_tabs (s0\<lparr>world := w\<rparr>)))"

definition deleteTab :: "'w browser \<Rightarrow> string \<Rightarrow> string \<Rightarrow> 'w app \<Rightarrow> 'w app" where
  "deleteTab b cid tid s =
     (case find_collection cid (collections s) of
        None \<Rightarrow> s
      | Some collection \<Rightarrow>
          (case removeTabFromCollection b tid (called (RemoveTabFromCollection tid) s) of
             (True, s') \<Rightarrow>
               s'\<lparr>collections :=
                    set_tabs cid (filter (\<lambda>t. tab_id t \<noteq> tid) (tabs collection)) (collections s')\<rparr>
           | (False, s') \<Rightarrow> s'))"

text \<open>
  The open-tab branch shared by \<open>onTabDrop\<close> and \<open>onDropToCollection\<close>:
  \<open>target\<close> is the position found for the hovered tab (\<open>None\<close> in
  \<open>onDropToCollection\<close>, which always appends).
\<close>

definition add_open_tab ::
  "'w browser \<Rightarrow> string \<Rightarrow> Collection \<Rightarrow> nat option \<Rightarrow> BrowserTab \<Rightarrow> 'w app \<Rightarrow> 'w app" where
  "add_open_tab b cid collection target tab s =
     (case bt_url tab of
        None \<Rightarrow> s
      | Some u \<Rightarrow>
          if truthy u \<and> isValidTabUrl (Some u) then
            (if list_ex (\<lambda>t. url t = u) (tabs collection) then s
             else (let ttl = or_else (bt_title tab) u; fav = or_else (favIconUrl tab) []
                   in case addTabToCollection b cid ttl u fav
                             (called (AddTabToCollection cid ttl u fav) s) of
                        (Some newTab, s') \<Rightarrow>
                          s'\<lparr>collections :=
                               set_tabs cid
                                 (case target of
                                    Some i \<Rightarrow> splice_in i newTab (tabs collection)
                                  | None \<Rightarrow> tabs collection @ [newTab])
                                 (collections s')\<rparr>
                      | (None, s') \<Rightarrow> s'))
          else s)"

text \<open>
  The cross-collection branch shared by both drop handlers: the adapter's move first, the
  two splices after it has resolved.
\<close>

definition move_saved_tab ::
  "'w browser \<Rightarrow> string \<Rightarrow> Collection \<Rightarrow> nat option \<Rightarrow> string \<Rightarrow> Collection \<Rightarrow> nat \<Rightarrow>
   string \<Rightarrow> 'w app \<Rightarrow> 'w app" where
  "move_saved_tab b cid collection target src sourceCollection sourceIndex tid s =
     (let sourceTab = tabs sourceCollection ! sourceIndex
      in if list_ex (\<lambda>t. url t = url sourceTab) (tabs collection) then s
         else (case moveTab b tid cid (called (MoveTab tid cid) s) of
                 (True, s') \<Rightarrow>
                   s'\<lparr>collections :=
                        set_tabs cid
                          (case target of
                             Some j \<Rightarrow> splice_in j sourceTab (tabs collection)
                           | None \<Rightarrow> tabs collection @ [sourceTab])
                          (set_tabs src (splice_out sourceIndex (tabs sourceCollection))
                             (collections s'))\<rparr>
               | (False, s') \<Rightarrow> s'))"

definition onTabDrop :: "'w browser \<Rightarrow> string \<Rightarrow> string \<Rightarrow> 'w app \<Rightarrow> 'w app" where
  "onTabDrop b cid targetTabId s =
     (case find_collection cid (collections s) of
        None \<Rightarrow> s
      | Some collection \<Rightarrow>
          (let targetIndex = findIndex (\<lambda>t. tab_id t = targetTabId) (tabs collection)
           in case draggedOpenTab s of
                Some tab \<Rightarrow>
                  (add_open_tab b cid collection targetIndex tab s)
                    \<lparr>draggedOpenTab := None, dragOverTabId := None\<rparr>
              | None \<Rightarrow>
                  (case draggedTab s of
                     None \<Rightarrow> s
                   | Some (src, sourceTabId) \<Rightarrow>
                       if src = cid then
                         (case (findIndex (\<lambda>t. tab_id t = sourceTabId) (tabs collection),
                                targetIndex) of
                            (Some i, Some j) \<Rightarrow>
                              if i \<noteq> j then
                                s\<lparr>collections :=
                                    set_tabs cid
                                      (splice_in j (tabs collection ! i)
                                         (splice_out i (tabs collection)))
                                      (collections s)\<rparr>
                              else s
                          | _ \<Rightarrow> s)
                       else
                         (case find_collection src (collections s) of
                            None \<Rightarrow> s
                          | Some sourceCollection \<Rightarrow>
                              (case findIndex (\<lambda>t. tab_id t = sourceTabId)
                                      (tabs sourceCollection) of
                                 None \<Rightarrow> s
                               | Some i \<Rightarrow>
                                   move_saved_tab b cid collection targetIndex src
                                     sourceCollection i sourceTabId s)))
                    \<lparr>draggedTab := None, dragOverTabId := None\<rparr>))"

definition onDropToCollection :: "'w browser \<Rightarrow> string \<Rightarrow> 'w app \<Rightarrow> 'w app" where
  "onDropToCollection b target s =
     (case find_collection target (collections s) of
        None \<Rightarrow> s
      | Some targetCollection \<Rightarrow>
          (case draggedOpenTab s of
             Some tab \<Rightarrow>
               (add_open_tab b target targetCollection None tab s)
                 \<lparr>draggedOpenTab := None, dragOverCollectionId := None\<rparr>
           | None \<Rightarrow>
               (case draggedTab s of
                  None \<Rightarrow> s
                | Some (src, tid) \<Rightarrow>
                    if src = target then s
                    else
                      (case find_collection src (collections s) of
                         None \<Rightarrow> s
                       | Some sourceCollection \<Rightarrow>
                           (case findIndex (\<lambda>t. tab_id t = tid) (tabs sourceCollection) of
                              None \<Rightarrow> s
                            | Some tabIndex \<Rightarrow>
                                move_saved_tab b target targetCollection None src
                                  sourceCollection tabIndex tid s)))
                 \<lparr>draggedTab := None, draggedOpenTab := None, dragOverCollectionId := None\<rparr>))"

section \<open>Loading from \<open>browser.storage.local\<close> (second module of types.ts)\<close>

text \<open>
  What \<open>storage.local\<close> hands back is any structured value. An object is the list of
  its properties in enumeration order, which is the order of \<open>Object.values\<close>.
\<close>

datatype json =
    JNull
  | JBool bool
  | JNum int
  | JStr string
  | JArr "json list"
  | JObj "(string \<times> json) list"

text \<open>\<open>v && typeof v === 'object' && 'id' in v\<close>\<close>

fun has_id :: "json \<Rightarrow> bool" where
  "has_id (JObj props) = list_ex (\<lambda>p. fst p = ''id'') props"
| "has_id _ = False"

text \<open>
  The body of the \<open>try\<close> block once \<open>data = result[KEY]\<close> is read; \<open>None\<close>
  is \<open>undefined\<close> (the key is absent).
\<close>

fun as_array :: "json option \<Rightarrow> json list" where
  "as_array (Some (JArr xs)) = xs"
| "as_array (Some (JObj props)) =
     (let values = map snd props
      in if 0 < length values \<and> list_all has_id values then values else [])"
| "as_array _ = []"

definition COLLECTIONS_KEY :: string where
  "COLLECTIONS_KEY = ''toby_collections''"

definition GROUPS_KEY :: string where
  "GROUPS_KEY = ''toby_groups''"

text \<open>
  \<open>available\<close> is \<open>isStorageAvailable()\<close>; \<open>result\<close> is what
  \<open>storage.local.get\<close> resolves to, \<open>None\<close> when it rejects. The functions
  return a list in every case: they have no branch that throws.
\<close>

definition loadCollections :: "bool \<Rightarrow> (string \<rightharpoonup> json) option \<Rightarrow> json list" where
  "loadCollections available result =
     (if \<not> available then []
      else (case result of None \<Rightarrow> [] | Some r \<Rightarrow> as_array (r COLLECTIONS_KEY)))"

definition loadGroups :: "bool \<Rightarrow> (string \<rightharpoonup> json) option \<Rightarrow> json list" where
  "loadGroups available result =
     (if \<not> available then []
      else (case result of None \<Rightarrow> [] | Some r \<Rightarrow> as_array (r GROUPS_KEY)))"

text \<open>A persisted value is malformed when it is there and is not an array.\<close>

fun malformed :: "json option \<Rightarrow> bool" where
  "malformed None = False"
| "malformed (Some (JArr xs)) = False"
| "malformed (Some _) = True"

fun object_values :: "json option \<Rightarrow> json list" where
  "object_values (Some (JObj props)) = map snd props"
| "object_values _ = []"

text \<open>The legacy shape the loaders convert: a non-empty object whose values all carry
  an \<open>id\<close>.\<close>

fun legacy_object :: "json option \<Rightarrow> bool" where
  "legacy_object (Some (JObj props)) = (props \<noteq> [] \<and> list_all has_id (map snd props))"
| "legacy_object _ = False"

section \<open>Operation sequences and invariants\<close>

datatype group_op = CreateGroup string | DeleteGroup string

text \<open>Typing a name into the dialog and confirming it, or clicking a group's delete
  button.\<close>

fun run_group_op :: "'w browser \<Rightarrow> group_op \<Rightarrow> 'w app \<Rightarrow> 'w app" where
  "run_group_op b (CreateGroup name) s = createGroup b (s\<lparr>newGroupName := name\<rparr>)"
| "run_group_op b (DeleteGroup gid) s = deleteGroup b gid s"

fun run_group_ops :: "'w browser \<Rightarrow> group_op list \<Rightarrow> 'w app \<Rightarrow> 'w app" where
  "run_group_ops b [] s = s"
| "run_group_ops b (x # xs) s = run_group_ops b xs (run_group_op b x s)"

text \<open>Every collection's \<open>groupId\<close> is the id of a group in the list.\<close>

definition groups_ok :: "'w app \<Rightarrow> bool" where
  "groups_ok s = list_all (\<lambda>c. list_ex (\<lambda>g. grp_id g = groupId c) (groups s)) (collections s)"

datatype drag_start =
    TabDragStart string string
  | OpenTabDragStart BrowserTab
  | CollectionDragStart string
  | GroupDragStart string

fun run_drag_start :: "drag_start \<Rightarrow> 'w app \<Rightarrow> 'w app" where
  "run_drag_start (TabDragStart cid tid) s = onDragStart cid tid s"
| "run_drag_start (OpenTabDragStart tab) s = onDragStartOpenTab tab s"
| "run_drag_start (CollectionDragStart cid) s = onCollectionDragStart cid s"
| "run_drag_start (GroupDragStart gid) s = onGroupDragStart gid s"

text \<open>The drag-end handler the template binds on the same element as the drag-start
  handler.\<close>

fun run_drag_end :: "drag_start \<Rightarrow> 'w app \<Rightarrow> 'w app" where
  "run_drag_end (GroupDragStart gid) s = onGroupDragEnd s"
| "run_drag_end _ s = onDragEnd s"

text \<open>No drag is in progress: every drag marker is null.\<close>

definition no_drag :: "'w app \<Rightarrow> bool" where
  "no_drag s =
     (draggedTab s = None \<and> draggedOpenTab s = None \<and> draggedCollection s = None
      \<and> draggedGroup s = None)"

text \<open>A browser for concrete runs: every call succeeds, the world is a counter from
  which fresh bookmark ids are drawn.\<close>

definition fresh_node :: "string \<Rightarrow> string option \<Rightarrow> nat \<Rightarrow> node" where
  "fresh_node ttl u n =
     \<lparr>node_id = replicate (Suc n) CHR ''n'', node_title = ttl, node_url = u,
      dateAdded = Some (Suc n)\<rparr>"

definition ok_browser :: "nat browser" where
  "ok_browser =
     \<lparr>bookmarks_get = (\<lambda>i w. (True, w)),
      bookmarks_search = (\<lambda>t w. (Some [], w)),
      bookmarks_create = (\<lambda>p t u w. (Some (fresh_node t u w), Suc w)),
      bookmarks_update = (\<lambda>i t w. (True, w)),
      bookmarks_move = (\<lambda>i p x w. (True, w)),
      bookmarks_remove = (\<lambda>i w. (True, w)),
      bookmarks_removeTree = (\<lambda>i w. (True, w)),
      tabs_query = (\<lambda>c w. (Some [], w)),
      confirm_dialog = (\<lambda>w. (True, w)),
      date_now = (\<lambda>w. w),
      url_hostname = (\<lambda>u. None),
      storage_available = True,
      storage_get_ok = (\<lambda>w. (True, w)),
      storage_set_ok = (\<lambda>w. (True, w))\<rparr>"

text \<open>The same browser with every bookmark call rejected.\<close>

definition failing_browser :: "nat browser" where
  "failing_browser =
     ok_browser\<lparr>bookmarks_get := (\<lambda>i w. (False, w)),
                bookmarks_search := (\<lambda>t w. (None, w)),
                bookmarks_create := (\<lambda>p t u w. (None, w)),
                bookmarks_update := (\<lambda>i t w. (False, w)),
                bookmarks_move := (\<lambda>i p x w. (False, w)),
                bookmarks_remove := (\<lambda>i w. (False, w)),
                bookmarks_removeTree := (\<lambda>i w. (False, w))\<rparr>"

text \<open>A browser that rejects only \<open>bookmarks.move\<close>, and one that rejects only the
  write to \<open>storage.local\<close>.\<close>

definition move_rejecting_browser :: "nat browser" where
  "move_rejecting_browser = ok_browser\<lparr>bookmarks_move := (\<lambda>i p x w. (False, w))\<rparr>"

definition write_rejecting_browser :: "nat browser" where
  "write_rejecting_browser = ok_browser\<lparr>storage_set_ok := (\<lambda>w. (False, w))\<rparr>"

definition mk_tab :: "string \<Rightarrow> string \<Rightarrow> TabItem" where
  "mk_tab i u = \<lparr>tab_id = i, title = i, url = u, favicon = []\<rparr>"

definition mk_collection :: "string \<Rightarrow> string \<Rightarrow> TabItem list \<Rightarrow> Collection" where
  "mk_collection i g ts =
     \<lparr>col_id = i, col_name = i, tabs = ts, col_createdAt = 1, groupId = g, expanded = False\<rparr>"

definition mk_group :: "string \<Rightarrow> Group" where
  "mk_group i = \<lparr>grp_id = i, grp_name = i, grp_createdAt = 1\<rparr>"

definition mk_open_tab :: "string option \<Rightarrow> BrowserTab" where
  "mk_open_tab u = \<lparr>bt_id = Some 1, bt_url = u, bt_title = Some ''T'', favIconUrl = None\<rparr>"

text \<open>Two groups; two collections in the first one, both holding a tab for the same
  url.\<close>

definition demo_app :: "nat app" where
  "demo_app =
     (init_app 0)
       \<lparr>collections :=
          [mk_collection ''c1'' ''g1'' [mk_tab ''t1'' ''https://a.com'', mk_tab ''t2'' ''https://b.com''],
           mk_collection ''c2'' ''g1'' [mk_tab ''t3'' ''https://a.com'']],
        groups := [mk_group ''g1'', mk_group ''g2''],
        selectedGroupId := ''g1''\<rparr>"

text \<open>Collections \<open>C1\<close> and \<open>C2\<close> of one group, with \<open>C2\<close> being dragged.\<close>

definition scenario_app :: "nat app" where
  "scenario_app =
     (init_app 0)
       \<lparr>collections := [mk_collection ''C1'' ''g1'' [], mk_collection ''C2'' ''g1'' []],
        groups := [mk_group ''g1''],
        selectedGroupId := ''g1'',
        draggedCollection := Some ''C2''\<rparr>"

text \<open>The stored order of a collection id, as the comparator of \<open>onMounted\<close> reads
  it.\<close>

definition stored_order :: "CollectionUIStates \<Rightarrow> string \<Rightarrow> enat" where
  "stored_order uiStates i =
     (case uiStates i of None \<Rightarrow> \<infinity> | Some st \<Rightarrow> enat (ui_order st))"

section \<open>Facts about the list operations\<close>

lemma findIndex_Some: "findIndex P xs = Some i \<Longrightarrow> i < length xs \<and> P (xs ! i)"
  by (induction xs arbitrary: i) (auto split: if_splits)

lemma findIndex_first: "findIndex P xs = Some i \<Longrightarrow> k < i \<Longrightarrow> \<not> P (xs ! k)"
proof (induction xs arbitrary: i k)
  case Nil
  then show ?case by simp
next
  case (Cons x xs)
  then show ?case by (cases k) (auto split: if_splits)
qed

lemma splice_move_nth:
  "i < length xs \<Longrightarrow> j < length xs \<Longrightarrow> splice_in j (xs ! i) (splice_out i xs) ! j = xs ! i"
proof -
  assume a: "i < length xs" "j < length xs"
  then have "length (take j (splice_out i xs)) = j"
    by (auto simp: splice_out_def)
  then show ?thesis
    unfolding splice_in_def by (metis nth_append_length)
qed

lemma splice_move_length:
  "i < length xs \<Longrightarrow> length (splice_in j (xs ! i) (splice_out i xs)) = length xs"
  by (auto simp add: splice_in_def splice_out_def)

lemma splice_out_mset: "i < length xs \<Longrightarrow> add_mset (xs ! i) (mset (splice_out i xs)) = mset xs"
proof -
  assume a: "i < length xs"
  have "xs = take i xs @ xs ! i # drop (Suc i) xs"
    using a by (simp add: id_take_nth_drop)
  then have "mset xs = mset (take i xs @ xs ! i # drop (Suc i) xs)"
    by simp
  then show ?thesis
    by (simp add: splice_out_def)
qed

lemma splice_in_mset: "mset (splice_in j x xs) = add_mset x (mset xs)"
proof -
  have "mset (take j xs) + mset (drop j xs) = mset xs"
    by (metis append_take_drop_id mset_append)
  then show ?thesis
    by (simp add: splice_in_def)
qed

lemma splice_move_mset:
  "i < length xs \<Longrightarrow> mset (splice_in j (xs ! i) (splice_out i xs)) = mset xs"
  by (simp add: splice_in_mset splice_out_mset)

lemma find_update_first:
  "find P xs = Some x \<Longrightarrow> P (f x) \<Longrightarrow> find P (update_first P f xs) = Some (f x)"
  by (induction xs) (auto split: if_splits)

lemma update_first_id: "find P xs = Some x \<Longrightarrow> f x = x \<Longrightarrow> update_first P f xs = xs"
  by (induction xs) (auto split: if_splits)

lemma length_update_first: "length (update_first P f xs) = length xs"
  by (induction xs) auto

lemma find_set_tabs:
  "find_collection cid cs = Some c \<Longrightarrow>
   find_collection cid (set_tabs cid ts cs) = Some (c\<lparr>tabs := ts\<rparr>)"
  unfolding find_collection_def set_tabs_def
  by (rule find_update_first) (auto dest: find_Some_iff[THEN iffD1])


section \<open>Facts about the adapter\<close>

text \<open>An adapter call changes nothing in the state but the browser's world and, through
  \<open>getOrCreateRootFolder\<close>, the cached root id.\<close>

lemma root_view:
  "(snd (getOrCreateRootFolder b s))\<lparr>rootFolderId := r, world := w\<rparr>
   = s\<lparr>rootFolderId := r, world := w\<rparr>"
  by (simp add: getOrCreateRootFolder_def Let_def split_beta split: option.splits prod.splits)




lemma moveTab_eq:
  "moveTab b t c s =
     (fst (bookmarks_move b t c None (world s)),
      s\<lparr>world := snd (bookmarks_move b t c None (world s))\<rparr>)"
  by (simp add: moveTab_def split_beta)

lemma removeTab_eq:
  "removeTabFromCollection b t s =
     (fst (bookmarks_remove b t (world s)), s\<lparr>world := snd (bookmarks_remove b t (world s))\<rparr>)"
  by (simp add: removeTabFromCollection_def split_beta)

lemma getFaviconUrl_tabs_query:
  "getFaviconUrl (b\<lparr>tabs_query := q\<rparr>) u = getFaviconUrl b u"
  by (simp add: getFaviconUrl_def)

lemma addTab_tabs_query:
  "addTabToCollection (b\<lparr>tabs_query := q\<rparr>) c t u f s = addTabToCollection b c t u f s"
  by (simp add: addTabToCollection_def getFaviconUrl_tabs_query Let_def
      split: prod.splits option.splits)

section \<open>Facts about the drop branches\<close>

lemma move_saved_tab_rejected:
  "\<not> fst (bookmarks_move b tid cid None (world s)) \<Longrightarrow>
   collections (move_saved_tab b cid c tgt src sc i tid s) = collections s"
  by (simp add: move_saved_tab_def Let_def moveTab_eq called_def)

lemma add_open_tab_dup:
  "bt_url tab = Some u \<Longrightarrow> list_ex (\<lambda>t. url t = u) (tabs c) \<Longrightarrow>
   add_open_tab b cid c tgt tab s = s"
  by (simp add: add_open_tab_def)

lemma move_saved_tab_dup:
  "list_ex (\<lambda>t. url t = url (tabs sc ! i)) (tabs c) \<Longrightarrow>
   move_saved_tab b cid c tgt src sc i tid s = s"
  by (simp add: move_saved_tab_def)

lemma invalid_by_prefix:
  "\<forall>u. x = Some u \<longrightarrow>
     (\<exists>p\<in>{''chrome://'', ''chrome-extension://'', ''about:'', ''edge://'', ''brave://'',
            ''javascript:''}. prefix p u)
   \<Longrightarrow> \<not> isValidTabUrl x"
  by (cases x) (auto simp: isValidTabUrl_def excludeUrls_def)

lemma add_open_tab_invalid:
  "\<not> isValidTabUrl (bt_url tab) \<Longrightarrow> add_open_tab b cid c tgt tab s = s"
  by (cases "bt_url tab") (simp_all add: add_open_tab_def)

lemma saveTabsLoop_skip:
  "\<not> isValidTabUrl (bt_url tab) \<Longrightarrow>
   saveTabsLoop b cid ex (pre @ tab # post) s = saveTabsLoop b cid ex (pre @ post) s"
  by (induction pre arbitrary: s) (cases "bt_url tab"; simp)+

lemma saveTabsLoop_tabs_query:
  "saveTabsLoop (b\<lparr>tabs_query := q\<rparr>) cid ex ts s = saveTabsLoop b cid ex ts s"
  by (induction ts arbitrary: s)
    (simp_all add: addTab_tabs_query Let_def cong: option.case_cong if_cong)

section \<open>Facts about creating and deleting groups\<close>

lemma createGroupInBookmarks_view:
  "(snd (createGroupInBookmarks b n s))\<lparr>rootFolderId := r, world := w\<rparr>
   = s\<lparr>rootFolderId := r, world := w\<rparr>"
proof -
  obtain x s1 where g: "getOrCreateRootFolder b s = (x, s1)"
    by (cases "getOrCreateRootFolder b s")
  with root_view[where b=b and s=s and r=r and w=w]
  have "s1\<lparr>rootFolderId := r, world := w\<rparr> = s\<lparr>rootFolderId := r, world := w\<rparr>"
    by simp
  then show ?thesis
    using g by (cases x) (simp_all add: createGroupInBookmarks_def split: prod.splits option.splits)
qed

lemma createGroupInBookmarks_collections:
  "collections (snd (createGroupInBookmarks b n s)) = collections s"
  using arg_cong[OF createGroupInBookmarks_view[where b=b and n=n and s=s and r=None and w="world s"], of collections]
  by simp

lemma createGroupInBookmarks_groups:
  "groups (snd (createGroupInBookmarks b n s)) = groups s"
  using arg_cong[OF createGroupInBookmarks_view[where b=b and n=n and s=s and r=None and w="world s"], of groups]
  by simp

lemma createGroup_collections: "collections (createGroup b s) = collections s"
proof -
  obtain x s1 where g: "createGroupInBookmarks b (js_trim (newGroupName s)) (called (CreateGroupInBookmarks (js_trim (newGroupName s))) s) = (x, s1)"
    by (cases "createGroupInBookmarks b (js_trim (newGroupName s)) (called (CreateGroupInBookmarks (js_trim (newGroupName s))) s)")
  then have "collections s1 = collections s"
    using createGroupInBookmarks_collections[of b "js_trim (newGroupName s)" "called (CreateGroupInBookmarks (js_trim (newGroupName s))) s"]
    by (simp add: called_def)
  then show ?thesis using g by (cases x) (simp_all add: createGroup_def Let_def)
qed

lemma createGroup_groups: "set (groups s) \<subseteq> set (groups (createGroup b s))"
proof -
  obtain x s1 where g: "createGroupInBookmarks b (js_trim (newGroupName s)) (called (CreateGroupInBookmarks (js_trim (newGroupName s))) s) = (x, s1)"
    by (cases "createGroupInBookmarks b (js_trim (newGroupName s)) (called (CreateGroupInBookmarks (js_trim (newGroupName s))) s)")
  then have "groups s1 = groups s"
    using createGroupInBookmarks_groups[of b "js_trim (newGroupName s)" "called (CreateGroupInBookmarks (js_trim (newGroupName s))) s"]
    by (simp add: called_def)
  then show ?thesis using g by (cases x) (auto simp add: createGroup_def Let_def)
qed

lemma deleteGroup_cases:
  "(collections (deleteGroup b G s) = collections s \<and> groups (deleteGroup b G s) = groups s)
   \<or> (collections (deleteGroup b G s) = filter (\<lambda>c. groupId c \<noteq> G) (collections s)
      \<and> groups (deleteGroup b G s) = filter (\<lambda>g. grp_id g \<noteq> G) (groups s))"
  by (simp add: deleteGroup_def deleteGroupInBookmarks_def called_def Let_def split_beta split: bool.splits)

lemma deleteGroup_done:
  "fst (confirm_dialog b (world s)) \<Longrightarrow>
   fst (bookmarks_removeTree b G (snd (confirm_dialog b (world s)))) \<Longrightarrow>
   collections (deleteGroup b G s) = filter (\<lambda>c. groupId c \<noteq> G) (collections s)
   \<and> groups (deleteGroup b G s) = filter (\<lambda>g. grp_id g \<noteq> G) (groups s)"
  by (simp add: deleteGroup_def deleteGroupInBookmarks_def called_def Let_def split_beta split: bool.splits)

lemma groups_ok_iff:
  "groups_ok s \<longleftrightarrow> (\<forall>c\<in>set (collections s). \<exists>g\<in>set (groups s). grp_id g = groupId c)"
  by (simp add: groups_ok_def list_all_iff list_ex_iff)

lemma groups_ok_mono:
  assumes "groups_ok s" "set (collections s') \<subseteq> set (collections s)" "set (groups s) \<subseteq> set (groups s')"
  shows "groups_ok s'"
  using assms unfolding groups_ok_iff by blast

lemma groups_ok_filter:
  assumes "groups_ok s" "collections s' = filter (\<lambda>c. groupId c \<noteq> G) (collections s)"
     "groups s' = filter (\<lambda>g. grp_id g \<noteq> G) (groups s)"
  shows "groups_ok s'"
  unfolding groups_ok_iff
proof
  fix c assume "c \<in> set (collections s')"
  then have c: "c \<in> set (collections s)" "groupId c \<noteq> G" using assms(2) by auto
  then obtain g where "g \<in> set (groups s)" "grp_id g = groupId c"
    using assms(1) unfolding groups_ok_iff by blast
  then have "g \<in> set (groups s')" using c assms(3) by simp
  then show "\<exists>g\<in>set (groups s'). grp_id g = groupId c" using \<open>grp_id g = groupId c\<close> by blast
qed

lemma create_op_ok: "groups_ok s \<Longrightarrow> groups_ok (createGroup b (s\<lparr>newGroupName := n\<rparr>))"
proof -
  assume ok: "groups_ok s"
  have c: "collections (createGroup b (s\<lparr>newGroupName := n\<rparr>)) = collections s"
    by (simp add: createGroup_collections)
  have g: "set (groups s) \<subseteq> set (groups (createGroup b (s\<lparr>newGroupName := n\<rparr>)))"
    using createGroup_groups[of "s\<lparr>newGroupName := n\<rparr>" b] by simp
  show ?thesis
  proof (rule groups_ok_mono[OF ok])
    show "set (collections (createGroup b (s\<lparr>newGroupName := n\<rparr>))) \<subseteq> set (collections s)"
      by (simp only: c subset_refl)
    show "set (groups s) \<subseteq> set (groups (createGroup b (s\<lparr>newGroupName := n\<rparr>)))"
      by (rule g)
  qed
qed

lemma delete_op_ok: "groups_ok s \<Longrightarrow> groups_ok (deleteGroup b G s)"
proof -
  assume ok: "groups_ok s"
  from deleteGroup_cases[of b G s] show ?thesis
  proof
    assume same: "collections (deleteGroup b G s) = collections s
      \<and> groups (deleteGroup b G s) = groups s"
    show ?thesis
    proof (rule groups_ok_mono[OF ok])
      show "set (collections (deleteGroup b G s)) \<subseteq> set (collections s)"
        using same by (simp only: subset_refl)
      show "set (groups s) \<subseteq> set (groups (deleteGroup b G s))"
        using same by (simp only: subset_refl)
    qed
  next
    assume gone: "collections (deleteGroup b G s) = filter (\<lambda>c. groupId c \<noteq> G) (collections s)
      \<and> groups (deleteGroup b G s) = filter (\<lambda>g. grp_id g \<noteq> G) (groups s)"
    show ?thesis
      by (rule groups_ok_filter[OF ok, of _ G]) (simp_all only: gone)
  qed
qed

lemma group_op_ok: "groups_ok s \<Longrightarrow> groups_ok (run_group_op b x s)"
  by (cases x) (simp_all only: run_group_op.simps create_op_ok delete_op_ok)

lemma group_op_collections: "set (collections (run_group_op b x s)) \<subseteq> set (collections s)"
proof (cases x)
  case (CreateGroup n)
  have "collections (createGroup b (s\<lparr>newGroupName := n\<rparr>)) = collections s"
    by (simp add: createGroup_collections)
  then show ?thesis using CreateGroup by simp
next
  case (DeleteGroup G)
  have "set (collections (deleteGroup b G s)) \<subseteq> set (collections s)"
    using deleteGroup_cases[of b G s] by (elim disjE) simp_all
  then show ?thesis using DeleteGroup by simp
qed

lemma group_ops_ok: "groups_ok s \<Longrightarrow> groups_ok (run_group_ops b ops s)"
  by (induction ops arbitrary: s) (simp_all add: group_op_ok)

lemma group_ops_collections: "set (collections (run_group_ops b ops s)) \<subseteq> set (collections s)"
proof (induction ops arbitrary: s)
  case Nil
  then show ?case by simp
next
  case (Cons x xs)
  have "set (collections (run_group_ops b xs (run_group_op b x s)))
        \<subseteq> set (collections (run_group_op b x s))"
    by (rule Cons)
  also have "\<dots> \<subseteq> set (collections s)"
    by (rule group_op_collections)
  finally show ?case by simp
qed

lemmas fixture_defs = demo_app_def init_app_def mk_collection_def mk_tab_def mk_group_def
  mk_open_tab_def find_collection_def set_tabs_def splice_in_def splice_out_def

section \<open>Drag markers\<close>

text \<open>
  C6, as the spec states it: at most one drag marker is non-null at any time, because
  every drag-start handler clears all the others. The code does not do that:
  \<open>onGroupDragStart\<close> sets its marker and clears none, and \<open>onCollectionDragStart\<close>
  leaves the group marker alone. Starting a group drag while the collection marker is
  still set leaves two markers set.
\<close>

theorem drag_markers_counterexample:
  "markers_set (onGroupDragStart ''g1'' (onCollectionDragStart ''c1'' (init_app (0::nat)))) = 2"
  by (simp add: markers_set_def onGroupDragStart_def onCollectionDragStart_def init_app_def)

text \<open>
  C6, amended. What each handler does to the four markers, in every state: the tab
  drag-start sets the tab marker and clears the open-tab marker; the open-tab drag-start
  sets the open-tab marker and clears the tab marker; the collection drag-start sets the
  collection marker and clears the tab and the open-tab marker; the group drag-start sets
  the group marker and clears none; each leaves the remaining markers as they are.
  \<open>onDragEnd\<close> clears the tab, open-tab and collection markers and leaves the group
  marker; \<open>onGroupDragEnd\<close> clears the group marker and leaves the others. Hence,
  when no drag is in progress, a drag-start leaves exactly one marker set and the drag-end
  handler bound on the same element leaves none: one marker at a time holds for drags
  that are each ended before the next one starts.
\<close>

theorem drag_markers_bracketed:
  "draggedTab (onDragStart c t s) = Some (c, t)
   \<and> draggedOpenTab (onDragStart c t s) = None
   \<and> draggedCollection (onDragStart c t s) = draggedCollection s
   \<and> draggedGroup (onDragStart c t s) = draggedGroup s
   \<and> draggedOpenTab (onDragStartOpenTab tab s) = Some tab
   \<and> draggedTab (onDragStartOpenTab tab s) = None
   \<and> draggedCollection (onDragStartOpenTab tab s) = draggedCollection s
   \<and> draggedGroup (onDragStartOpenTab tab s) = draggedGroup s
   \<and> draggedCollection (onCollectionDragStart c s) = Some c
   \<and> draggedTab (onCollectionDragStart c s) = None
   \<and> draggedOpenTab (onCollectionDragStart c s) = None
   \<and> draggedGroup (onCollectionDragStart c s) = draggedGroup s
   \<and> draggedGroup (onGroupDragStart g s) = Some g
   \<and> draggedTab (onGroupDragStart g s) = draggedTab s
   \<and> draggedOpenTab (onGroupDragStart g s) = draggedOpenTab s
   \<and> draggedCollection (onGroupDragStart g s) = draggedCollection s
   \<and> draggedTab (onDragEnd s) = None
   \<and> draggedOpenTab (onDragEnd s) = None
   \<and> draggedCollection (onDragEnd s) = None
   \<and> draggedGroup (onDragEnd s) = draggedGroup s
   \<and> draggedGroup (onGroupDragEnd s) = None
   \<and> draggedTab (onGroupDragEnd s) = draggedTab s
   \<and> draggedOpenTab (onGroupDragEnd s) = draggedOpenTab s
   \<and> draggedCollection (onGroupDragEnd s) = draggedCollection s
   \<and> (no_drag s \<longrightarrow>
        markers_set (run_drag_start d s) = 1
        \<and> no_drag (run_drag_end d (run_drag_start d s)))"
proof -
  have starts: "no_drag s \<longrightarrow>
        markers_set (run_drag_start d s) = 1
        \<and> no_drag (run_drag_end d (run_drag_start d s))"
    by (cases d)
      (simp_all add: no_drag_def markers_set_def onDragStart_def onDragStartOpenTab_def
        onCollectionDragStart_def onGroupDragStart_def onDragEnd_def onGroupDragEnd_def)
  show ?thesis
    using starts
    by (simp add: onDragStart_def onDragStartOpenTab_def onCollectionDragStart_def
        onGroupDragStart_def onDragEnd_def onGroupDragEnd_def)
qed

theorem drag_markers_bracketed_witness:
  "no_drag demo_app
   \<and> markers_set (run_drag_start (TabDragStart ''c1'' ''t1'') demo_app) = 1
   \<and> no_drag (run_drag_end (TabDragStart ''c1'' ''t1'')
               (run_drag_start (TabDragStart ''c1'' ''t1'') demo_app))
   \<and> markers_set (run_drag_start (CollectionDragStart ''c1'') demo_app) = 1
   \<and> no_drag (run_drag_end (CollectionDragStart ''c1'')
               (run_drag_start (CollectionDragStart ''c1'') demo_app))
   \<and> markers_set (run_drag_start (GroupDragStart ''g1'') demo_app) = 1
   \<and> no_drag (run_drag_end (GroupDragStart ''g1'')
               (run_drag_start (GroupDragStart ''g1'') demo_app))
   \<and> draggedTab (onCollectionDragStart ''c2'' (demo_app\<lparr>draggedTab := Some (''c1'', ''t1'')\<rparr>))
     = None
   \<and> draggedCollection (onGroupDragStart ''g1'' (demo_app\<lparr>draggedCollection := Some ''c1''\<rparr>))
     = Some ''c1''"
proof -
  have h: "no_drag demo_app"
    by (simp add: no_drag_def fixture_defs)
  show ?thesis
    using h
      drag_markers_bracketed [where s=demo_app and d="TabDragStart ''c1'' ''t1''"]
      drag_markers_bracketed [where s=demo_app and d="CollectionDragStart ''c1''"]
      drag_markers_bracketed [where s=demo_app and d="GroupDragStart ''g1''"]
      drag_markers_bracketed [where s="demo_app\<lparr>draggedTab := Some (''c1'', ''t1'')\<rparr>"
        and c="''c2''"]
      drag_markers_bracketed [where s="demo_app\<lparr>draggedCollection := Some ''c1''\<rparr>"
        and g="''g1''"]
    by simp
qed

section \<open>Renaming\<close>

text \<open>
  C5: when the edited name trims to the empty string, committing the rename of a group,
  of a collection or of a tab changes nothing but that handler's editing id, which becomes
  null: the name stays, no adapter call is recorded, the browser is not touched. Each
  handler is taken on its own: the group at any position of the group list, the
  collection at any position of the collection list, the tab for any pair of ids.
\<close>

theorem rename_empty_discards:
  assumes "js_trim (editingName s) = []"
  shows "(i < length (groups s) \<longrightarrow> saveGroupName b i s = s\<lparr>editingGroupId := None\<rparr>)
       \<and> (j < length (collections s) \<longrightarrow>
            saveCollectionName b j s = s\<lparr>editingCollectionId := None\<rparr>)
       \<and> saveTabName b cid tid s = s\<lparr>editingTabId := None\<rparr>"
  using assms
  by (simp add: saveGroupName_def saveCollectionName_def saveTabName_def truthy_def Let_def
      split: option.splits)

theorem rename_empty_discards_witness:
  "saveGroupName ok_browser 0
     ((init_app 0)\<lparr>groups := [mk_group ''g1''], editingName := ''  '',
                   editingGroupId := Some ''g1''\<rparr>)
   = (init_app 0)\<lparr>groups := [mk_group ''g1''], editingName := ''  '', editingGroupId := None\<rparr>
   \<and> saveCollectionName ok_browser 1
        (demo_app\<lparr>editingName := [], editingCollectionId := Some ''c2''\<rparr>)
     = demo_app\<lparr>editingName := [], editingCollectionId := None\<rparr>
   \<and> saveTabName ok_browser ''c1'' ''t2''
        (demo_app\<lparr>editingName := '' '', editingTabId := Some ''t2''\<rparr>)
     = demo_app\<lparr>editingName := '' '', editingTabId := None\<rparr>"
proof -
  have h1: "js_trim (editingName ((init_app (0::nat))\<lparr>groups := [mk_group ''g1''],
              editingName := ''  '', editingGroupId := Some ''g1''\<rparr>)) = []"
    by (simp add: js_trim_def is_ws_def)
  have h2: "js_trim (editingName
              (demo_app\<lparr>editingName := [], editingCollectionId := Some ''c2''\<rparr>)) = []"
    by (simp add: js_trim_def)
  have h3: "js_trim (editingName (demo_app\<lparr>editingName := '' '', editingTabId := Some ''t2''\<rparr>))
            = []"
    by (simp add: js_trim_def is_ws_def)
  show ?thesis
    using rename_empty_discards [OF h1, where i=0 and b=ok_browser]
      rename_empty_discards [OF h2, where j=1 and b=ok_browser]
      rename_empty_discards [OF h3, where b=ok_browser and cid="''c1''" and tid="''t2''"]
    by (simp add: fixture_defs)
qed

section \<open>Loading persisted lists\<close>

lemma as_array_malformed:
  "malformed d \<Longrightarrow> as_array d = (if legacy_object d then object_values d else [])"
  by (cases d rule: as_array.cases) (auto simp: Let_def)

text \<open>
  C8, as the spec states it: every malformed persisted value (a non-array where an array
  is expected) loads as the empty list. An object whose single property holds an object
  with an \<open>id\<close> is not an array, and \<open>loadCollections\<close> returns its values.
\<close>

theorem load_malformed_counterexample:
  "malformed (Some (JObj [(''0'', JObj [(''id'', JStr ''c1'')])]))
   \<and> loadCollections True
        (Some (Map.empty(COLLECTIONS_KEY \<mapsto> JObj [(''0'', JObj [(''id'', JStr ''c1'')])])))
      = [JObj [(''id'', JStr ''c1'')]]"
  by (simp add: loadCollections_def)

text \<open>
  C8, amended: for a malformed persisted value the two load functions return a list and
  never throw; the list is empty, except that a non-empty object whose values are all
  objects with an \<open>id\<close> property (the legacy format) is converted to the array of
  its values. A rejected read loads as the empty list.
\<close>

theorem load_malformed_coerced:
  "malformed d \<Longrightarrow>
   loadCollections av (Some (r(COLLECTIONS_KEY := d)))
     = (if av \<and> legacy_object d then object_values d else [])
   \<and> loadGroups av (Some (r(GROUPS_KEY := d)))
     = (if av \<and> legacy_object d then object_values d else [])
   \<and> loadCollections av None = [] \<and> loadGroups av None = []"
  by (simp add: loadCollections_def loadGroups_def as_array_malformed)

theorem load_malformed_coerced_witness:
  "malformed (Some (JStr ''oops''))
   \<and> loadCollections True (Some (Map.empty(COLLECTIONS_KEY := Some (JStr ''oops'')))) = []
   \<and> loadGroups True (Some (Map.empty(GROUPS_KEY := Some (JStr ''oops'')))) = []"
  using load_malformed_coerced [where d="Some (JStr ''oops'')" and av=True and r=Map.empty]
  by simp

section \<open>Dropping tabs\<close>

text \<open>
  C1: when the target collection already holds a tab with the url of the dragged item,
  the drop changes nothing but the drag markers. That holds for an open browser tab and
  for a saved tab dragged from another collection, in \<open>onDropToCollection\<close> and in
  \<open>onTabDrop\<close>: the collections (hence the target's tabs), the trace of adapter calls
  and the browser are as before.
\<close>

theorem duplicate_url_drop_noop:
  assumes "find_collection cid (collections s) = Some c"
  shows "(draggedOpenTab s = Some tab \<and> bt_url tab = Some u
          \<and> list_ex (\<lambda>t. url t = u) (tabs c) \<longrightarrow>
            onDropToCollection b cid s = s\<lparr>draggedOpenTab := None, dragOverCollectionId := None\<rparr>
          \<and> onTabDrop b cid tgt s = s\<lparr>draggedOpenTab := None, dragOverTabId := None\<rparr>)
       \<and> (draggedOpenTab s = None \<and> draggedTab s = Some (src, tid) \<and> src \<noteq> cid
          \<and> find_collection src (collections s) = Some sc
          \<and> findIndex (\<lambda>t. tab_id t = tid) (tabs sc) = Some i
          \<and> list_ex (\<lambda>t. url t = url (tabs sc ! i)) (tabs c) \<longrightarrow>
            onDropToCollection b cid s = s\<lparr>draggedTab := None, dragOverCollectionId := None\<rparr>
          \<and> onTabDrop b cid tgt s = s\<lparr>draggedTab := None, dragOverTabId := None\<rparr>)"
  using assms
  by (auto simp add: onTabDrop_def onDropToCollection_def Let_def add_open_tab_dup
      move_saved_tab_dup)

theorem duplicate_url_drop_noop_witness:
  "onDropToCollection ok_browser ''c2''
     (demo_app\<lparr>draggedOpenTab := Some (mk_open_tab (Some ''https://a.com''))\<rparr>) = demo_app
   \<and> onTabDrop ok_browser ''c2'' ''t3'' (demo_app\<lparr>draggedTab := Some (''c1'', ''t1'')\<rparr>)
     = demo_app"
proof -
  have h1: "find_collection ''c2''
              (collections (demo_app\<lparr>draggedOpenTab := Some (mk_open_tab (Some ''https://a.com''))\<rparr>))
            = Some (mk_collection ''c2'' ''g1'' [mk_tab ''t3'' ''https://a.com''])"
    by (simp add: fixture_defs)
  have h2: "find_collection ''c2'' (collections (demo_app\<lparr>draggedTab := Some (''c1'', ''t1'')\<rparr>))
            = Some (mk_collection ''c2'' ''g1'' [mk_tab ''t3'' ''https://a.com''])"
    by (simp add: fixture_defs)
  show ?thesis
    using duplicate_url_drop_noop [OF h1, where tab="mk_open_tab (Some ''https://a.com'')"
        and u="''https://a.com''" and b=ok_browser and tgt="''t3''"]
      duplicate_url_drop_noop [OF h2, where b=ok_browser and tgt="''t3''" and src="''c1''"
        and tid="''t1''" and i=0
        and sc="mk_collection ''c1'' ''g1''
                  [mk_tab ''t1'' ''https://a.com'', mk_tab ''t2'' ''https://b.com'']"]
    by (simp add: fixture_defs)
qed

text \<open>
  C7: a tab dropped on another tab of its own collection is moved in the in-memory list
  only. The handler returns the state with the tab taken out at its source position and
  put in at the target position (and the markers reset): the trace of adapter calls, the
  browser's world and the UI-state store are untouched.
\<close>

theorem same_collection_drop_local:
  assumes "draggedOpenTab s = None"
    and "draggedTab s = Some (cid, src_tid)"
    and "find_collection cid (collections s) = Some c"
    and "findIndex (\<lambda>t. tab_id t = src_tid) (tabs c) = Some i"
    and "findIndex (\<lambda>t. tab_id t = tgt_tid) (tabs c) = Some j"
  shows "onTabDrop b cid tgt_tid s =
           s\<lparr>collections :=
                (if i \<noteq> j
                 then set_tabs cid (splice_in j (tabs c ! i) (splice_out i (tabs c)))
                        (collections s)
                 else collections s),
             draggedTab := None, dragOverTabId := None\<rparr>
         \<and> calls (onTabDrop b cid tgt_tid s) = calls s
         \<and> world (onTabDrop b cid tgt_tid s) = world s
         \<and> ui_store (onTabDrop b cid tgt_tid s) = ui_store s
         \<and> splice_in j (tabs c ! i) (splice_out i (tabs c)) ! j = tabs c ! i
         \<and> mset (splice_in j (tabs c ! i) (splice_out i (tabs c))) = mset (tabs c)"
  using assms findIndex_Some[OF assms(4)] findIndex_Some[OF assms(5)]
  by (simp add: onTabDrop_def Let_def splice_move_nth splice_move_mset)

theorem same_collection_drop_local_witness:
  "onTabDrop failing_browser ''c1'' ''t1'' (demo_app\<lparr>draggedTab := Some (''c1'', ''t2'')\<rparr>)
   = demo_app\<lparr>collections :=
       [mk_collection ''c1'' ''g1''
          [mk_tab ''t2'' ''https://b.com'', mk_tab ''t1'' ''https://a.com''],
        mk_collection ''c2'' ''g1'' [mk_tab ''t3'' ''https://a.com'']]\<rparr>
   \<and> calls (onTabDrop failing_browser ''c1'' ''t1''
               (demo_app\<lparr>draggedTab := Some (''c1'', ''t2'')\<rparr>)) = []"
proof -
  have h1: "draggedOpenTab (demo_app\<lparr>draggedTab := Some (''c1'', ''t2'')\<rparr>) = None"
    by (simp add: fixture_defs)
  have h2: "draggedTab (demo_app\<lparr>draggedTab := Some (''c1'', ''t2'')\<rparr>) = Some (''c1'', ''t2'')"
    by simp
  have h3: "find_collection ''c1'' (collections (demo_app\<lparr>draggedTab := Some (''c1'', ''t2'')\<rparr>))
            = Some (mk_collection ''c1'' ''g1''
                      [mk_tab ''t1'' ''https://a.com'', mk_tab ''t2'' ''https://b.com''])"
    by (simp add: fixture_defs)
  have h4: "findIndex (\<lambda>t. tab_id t = ''t2'')
              (tabs (mk_collection ''c1'' ''g1''
                       [mk_tab ''t1'' ''https://a.com'', mk_tab ''t2'' ''https://b.com'']))
            = Some 1"
    by (simp add: fixture_defs)
  have h5: "findIndex (\<lambda>t. tab_id t = ''t1'')
              (tabs (mk_collection ''c1'' ''g1''
                       [mk_tab ''t1'' ''https://a.com'', mk_tab ''t2'' ''https://b.com'']))
            = Some 0"
    by (simp add: fixture_defs)
  show ?thesis
    using same_collection_drop_local [OF h1 h2 h3 h4 h5, where b=failing_browser]
    by (simp add: fixture_defs)
qed

text \<open>
  C9: when the adapter call rejects, the collections are exactly as before, because the
  splices come after the awaited call. For \<open>deleteTab\<close> that is the bookmark removal,
  in any state; for a saved tab dropped on another collection, in \<open>onTabDrop\<close> and in
  \<open>onDropToCollection\<close>, it is the bookmark move.
\<close>

theorem adapter_rejection_keeps_tabs:
  "(\<not> fst (bookmarks_remove b tid (world s)) \<longrightarrow>
      collections (deleteTab b dc tid s) = collections s)
   \<and> (\<not> fst (bookmarks_move b tid cid None (world s)) \<and> draggedOpenTab s = None
      \<and> draggedTab s = Some (src, tid) \<and> src \<noteq> cid \<longrightarrow>
        collections (onTabDrop b cid tgt s) = collections s
      \<and> collections (onDropToCollection b cid s) = collections s)"
proof (intro conjI impI)
  assume "\<not> fst (bookmarks_remove b tid (world s))"
  then show "collections (deleteTab b dc tid s) = collections s"
    by (simp add: deleteTab_def removeTab_eq called_def split: option.splits)
next
  assume h: "\<not> fst (bookmarks_move b tid cid None (world s)) \<and> draggedOpenTab s = None
      \<and> draggedTab s = Some (src, tid) \<and> src \<noteq> cid"
  then show "collections (onTabDrop b cid tgt s) = collections s"
    by (simp add: onTabDrop_def Let_def move_saved_tab_rejected split: option.splits)
  from h show "collections (onDropToCollection b cid s) = collections s"
    by (simp add: onDropToCollection_def Let_def move_saved_tab_rejected split: option.splits)
qed

theorem adapter_rejection_keeps_tabs_witness:
  "collections (deleteTab failing_browser ''c1'' ''t2'' demo_app) = collections demo_app
   \<and> calls (deleteTab failing_browser ''c1'' ''t2'' demo_app) = [RemoveTabFromCollection ''t2'']
   \<and> collections (onTabDrop move_rejecting_browser ''c2'' ''t3''
                     (demo_app\<lparr>draggedTab := Some (''c1'', ''t2'')\<rparr>)) = collections demo_app
   \<and> calls (onTabDrop move_rejecting_browser ''c2'' ''t3''
               (demo_app\<lparr>draggedTab := Some (''c1'', ''t2'')\<rparr>)) = [MoveTab ''t2'' ''c2'']
   \<and> collections (onDropToCollection move_rejecting_browser ''c2''
                     (demo_app\<lparr>draggedTab := Some (''c1'', ''t2'')\<rparr>)) = collections demo_app"
proof -
  have h1: "\<not> fst (bookmarks_remove failing_browser ''t2'' (world demo_app))"
    by (simp add: failing_browser_def ok_browser_def)
  have h2: "\<not> fst (bookmarks_move move_rejecting_browser ''t2'' ''c2'' None
                     (world (demo_app\<lparr>draggedTab := Some (''c1'', ''t2'')\<rparr>)))
            \<and> draggedOpenTab (demo_app\<lparr>draggedTab := Some (''c1'', ''t2'')\<rparr>) = None
            \<and> draggedTab (demo_app\<lparr>draggedTab := Some (''c1'', ''t2'')\<rparr>) = Some (''c1'', ''t2'')
            \<and> ''c1'' \<noteq> ''c2''"
    by (simp add: move_rejecting_browser_def ok_browser_def fixture_defs)
  have trace1: "calls (deleteTab failing_browser ''c1'' ''t2'' demo_app)
                = [RemoveTabFromCollection ''t2'']"
    by (simp add: fixture_defs failing_browser_def ok_browser_def deleteTab_def
        removeTabFromCollection_def called_def)
  have trace2: "calls (onTabDrop move_rejecting_browser ''c2'' ''t3''
                         (demo_app\<lparr>draggedTab := Some (''c1'', ''t2'')\<rparr>)) = [MoveTab ''t2'' ''c2'']"
    by (simp add: fixture_defs move_rejecting_browser_def ok_browser_def onTabDrop_def
        move_saved_tab_def moveTab_def called_def Let_def)
  show ?thesis
    using adapter_rejection_keeps_tabs
        [where b=failing_browser and tid="''t2''" and s=demo_app and dc="''c1''",
          THEN conjunct1, rule_format, OF h1]
      adapter_rejection_keeps_tabs
        [where b=move_rejecting_browser and tid="''t2''" and cid="''c2''" and src="''c1''"
          and s="demo_app\<lparr>draggedTab := Some (''c1'', ''t2'')\<rparr>" and tgt="''t3''",
          THEN conjunct2, rule_format, OF h2]
      trace1 trace2
    by simp
qed

text \<open>
  C10: an open tab whose url is missing or starts with one of the six system prefixes is
  never saved. Dropped on a collection or on a tab, it leaves the collections and the
  trace of adapter calls as they were; the bulk save treats the window's tabs exactly as
  if that tab were not among them.
\<close>

theorem system_tab_never_added:
  assumes "\<forall>u. bt_url tab = Some u \<longrightarrow>
             (\<exists>p\<in>{''chrome://'', ''chrome-extension://'', ''about:'', ''edge://'', ''brave://'',
                    ''javascript:''}. prefix p u)"
  shows "(draggedOpenTab s = Some tab \<longrightarrow>
            collections (onDropToCollection b cid s) = collections s
          \<and> calls (onDropToCollection b cid s) = calls s
          \<and> collections (onTabDrop b cid tgt s) = collections s
          \<and> calls (onTabDrop b cid tgt s) = calls s)
       \<and> saveTabsLoop b cid ex (pre @ tab # post) s = saveTabsLoop b cid ex (pre @ post) s
       \<and> (tabs_query b True (world s) = (Some (pre @ tab # post), w) \<longrightarrow>
            saveCurrentTabs b cid s
            = saveCurrentTabs (b\<lparr>tabs_query := \<lambda>c w0. (Some (pre @ post), w)\<rparr>) cid s)"
proof -
  have inv: "\<not> isValidTabUrl (bt_url tab)"
    using assms by (rule invalid_by_prefix)
  have dropped: "draggedOpenTab s = Some tab \<longrightarrow>
            collections (onDropToCollection b cid s) = collections s
          \<and> calls (onDropToCollection b cid s) = calls s
          \<and> collections (onTabDrop b cid tgt s) = collections s
          \<and> calls (onTabDrop b cid tgt s) = calls s"
    by (simp add: onDropToCollection_def onTabDrop_def Let_def add_open_tab_invalid[OF inv]
        split: option.splits)
  have bulk: "tabs_query b True (world s) = (Some (pre @ tab # post), w) \<longrightarrow>
            saveCurrentTabs b cid s
            = saveCurrentTabs (b\<lparr>tabs_query := \<lambda>c w0. (Some (pre @ post), w)\<rparr>) cid s"
    by (simp add: saveCurrentTabs_def Let_def called_def saveTabsLoop_tabs_query
        saveTabsLoop_skip[OF inv] split: option.splits)
  show ?thesis
    using dropped bulk saveTabsLoop_skip[OF inv] by blast
qed

theorem system_tab_never_added_witness:
  "collections (onDropToCollection ok_browser ''c1''
                  (demo_app\<lparr>draggedOpenTab := Some (mk_open_tab (Some ''chrome://settings''))\<rparr>))
   = collections demo_app
   \<and> calls (onDropToCollection ok_browser ''c1''
               (demo_app\<lparr>draggedOpenTab := Some (mk_open_tab (Some ''chrome://settings''))\<rparr>))
     = []
   \<and> saveTabsLoop ok_browser ''c1'' [] [mk_open_tab (Some ''chrome://settings'')] demo_app
     = demo_app"
proof -
  have h: "\<forall>u. bt_url (mk_open_tab (Some ''chrome://settings'')) = Some u \<longrightarrow>
             (\<exists>p\<in>{''chrome://'', ''chrome-extension://'', ''about:'', ''edge://'', ''brave://'',
                    ''javascript:''}. prefix p u)"
    by (simp add: mk_open_tab_def)
  show ?thesis
    using system_tab_never_added [OF h,
        where s="demo_app\<lparr>draggedOpenTab := Some (mk_open_tab (Some ''chrome://settings''))\<rparr>"
        and b=ok_browser and cid="''c1''"]
      system_tab_never_added [OF h, where s=demo_app and b=ok_browser and cid="''c1''"
        and ex="[]" and pre="[]" and post="[]"]
    by (simp add: fixture_defs)
qed

section \<open>Reordering groups\<close>



section \<open>Creating and deleting groups\<close>

text \<open>
  C2: every collection's \<open>groupId\<close> names a group of the list, and that stays so
  through any sequence of group creations and deletions, whatever the browser answers.
  Once a deletion of group \<open>G\<close> has gone through (the user confirmed, the adapter
  resolved), no collection with \<open>groupId = G\<close> and no group with id \<open>G\<close> is
  left, and no later group creation or deletion brings such a collection back.
\<close>

theorem group_delete_removes_collections:
  "(groups_ok s \<longrightarrow> groups_ok (run_group_ops b ops s))
   \<and> (fst (confirm_dialog b (world s))
      \<and> fst (bookmarks_removeTree b G (snd (confirm_dialog b (world s))))
      \<longrightarrow> list_all (\<lambda>c. groupId c \<noteq> G) (collections (deleteGroup b G s))
        \<and> list_all (\<lambda>g. grp_id g \<noteq> G) (groups (deleteGroup b G s))
        \<and> list_all (\<lambda>c. groupId c \<noteq> G)
             (collections (run_group_ops b ops (deleteGroup b G s))))"
proof (intro conjI impI)
  assume "groups_ok s"
  then show "groups_ok (run_group_ops b ops s)"
    by (rule group_ops_ok)
next
  assume h: "fst (confirm_dialog b (world s))
      \<and> fst (bookmarks_removeTree b G (snd (confirm_dialog b (world s))))"
  then have d: "collections (deleteGroup b G s) = filter (\<lambda>c. groupId c \<noteq> G) (collections s)"
    "groups (deleteGroup b G s) = filter (\<lambda>g. grp_id g \<noteq> G) (groups s)"
    using deleteGroup_done[of b s G] by simp_all
  show 1: "list_all (\<lambda>c. groupId c \<noteq> G) (collections (deleteGroup b G s))"
    by (simp add: d list_all_iff)
  show "list_all (\<lambda>g. grp_id g \<noteq> G) (groups (deleteGroup b G s))"
    by (simp add: d list_all_iff)
  show "list_all (\<lambda>c. groupId c \<noteq> G) (collections (run_group_ops b ops (deleteGroup b G s)))"
    using 1 group_ops_collections[of b ops "deleteGroup b G s"]
    unfolding list_all_iff by blast
qed

theorem group_delete_removes_collections_witness:
  "groups_ok demo_app
   \<and> groups_ok (run_group_ops ok_browser [CreateGroup ''Work'', DeleteGroup ''g1''] demo_app)
   \<and> collections (deleteGroup ok_browser ''g1'' demo_app) = []
   \<and> map grp_id (groups (deleteGroup ok_browser ''g1'' demo_app)) = [''g2'']
   \<and> list_all (\<lambda>c. groupId c \<noteq> ''g1'')
        (collections (run_group_ops ok_browser [CreateGroup ''Work'', DeleteGroup ''g1'']
                        (deleteGroup ok_browser ''g1'' demo_app)))"
proof -
  have ok: "groups_ok demo_app"
    by (simp add: groups_ok_def fixture_defs)
  have h: "fst (confirm_dialog ok_browser (world demo_app))
      \<and> fst (bookmarks_removeTree ok_browser ''g1''
               (snd (confirm_dialog ok_browser (world demo_app))))"
    by (simp add: ok_browser_def)
  have d: "collections (deleteGroup ok_browser ''g1'' demo_app) = []
     \<and> map grp_id (groups (deleteGroup ok_browser ''g1'' demo_app)) = [''g2'']"
    by (simp add: deleteGroup_def deleteGroupInBookmarks_def called_def ok_browser_def
        fixture_defs Let_def)
  show ?thesis
    using group_delete_removes_collections
      [where s=demo_app and b=ok_browser and G="''g1''"
         and ops="[CreateGroup ''Work'', DeleteGroup ''g1'']"] ok h d
    by blast
qed

section \<open>Reordering collections\<close>

lemma order_states_other:
  "x \<notin> col_id ` set cs \<Longrightarrow> order_states n cs st x = st x"
  by (induction cs arbitrary: n st) auto

lemma order_states_nth:
  "distinct (map col_id cs) \<Longrightarrow> k < length cs \<Longrightarrow>
   order_states n cs st (col_id (cs ! k))
   = Some \<lparr>ui_expanded = expanded (cs ! k), ui_order = n + k\<rparr>"
proof (induction cs arbitrary: n st k)
  case Nil
  then show ?case by simp
next
  case (Cons c cs)
  show ?case
  proof (cases k)
    case 0
    have "col_id c \<notin> col_id ` set cs" using Cons.prems(1) by auto
    then show ?thesis using 0 by (simp add: order_states_other)
  next
    case (Suc k')
    then have "k' < length cs" using Cons.prems(2) by simp
    moreover have "distinct (map col_id cs)" using Cons.prems(1) by simp
    ultimately show ?thesis using Suc Cons.IH[of k' "Suc n"] by simp
  qed
qed

lemma saveCollectionOrder_collections:
  "collections (saveCollectionOrder b s) = collections s"
  by (simp add: saveCollectionOrder_def loadCollectionUIStates_def saveCollectionUIStates_def
      called_def split_beta Let_def)

lemma saveCollectionOrder_written:
  assumes "storage_available b"
    and "fst (storage_set_ok b (snd (storage_get_ok b (world s))))"
  shows "ui_store (saveCollectionOrder b s)
         = order_states 0 (collections s)
             (if fst (storage_get_ok b (world s)) then ui_store s else Map.empty)"
  using assms
  by (simp add: saveCollectionOrder_def loadCollectionUIStates_def saveCollectionUIStates_def
      called_def split_beta Let_def)

lemma saveCollectionOrder_unwritten:
  assumes "\<not> (storage_available b \<and> fst (storage_set_ok b (snd (storage_get_ok b (world s)))))"
  shows "ui_store (saveCollectionOrder b s) = ui_store s"
  using assms
  by (auto simp add: saveCollectionOrder_def loadCollectionUIStates_def
      saveCollectionUIStates_def called_def split_beta Let_def)

lemma filter_single:
  "distinct xs \<Longrightarrow> k \<in> set xs \<Longrightarrow> (\<And>x. x \<in> set xs \<Longrightarrow> P x \<longleftrightarrow> x = k) \<Longrightarrow> filter P xs = [k]"
proof (induction xs)
  case Nil
  then show ?case by simp
next
  case (Cons a xs)
  show ?case
  proof (cases "a = k")
    case True
    then have "k \<notin> set xs" using Cons.prems(1) by simp
    then have "filter P xs = []" using Cons.prems(3) by (auto simp: filter_empty_conv)
    moreover have "P a" using True Cons.prems(3)[of a] by simp
    ultimately show ?thesis using True by simp
  next
    case False
    then have "k \<in> set xs" using Cons.prems(2) by simp
    moreover have "distinct xs" using Cons.prems(1) by simp
    ultimately have "filter P xs = [k]" using Cons.IH Cons.prems(3) by simp
    moreover have "\<not> P a" using False Cons.prems(3)[of a] by simp
    ultimately show ?thesis by simp
  qed
qed

lemma sort_key_restores:
  fixes f :: "'a \<Rightarrow> enat"
  assumes dys: "distinct ys"
    and key: "\<And>k. k < length ys \<Longrightarrow> f (ys ! k) = enat k"
    and m: "mset xs = mset ys"
  shows "sort_key f xs = ys"
proof (rule properties_for_sort_key)
  have dxs: "distinct xs"
    using m dys by (metis mset_eq_imp_distinct_iff)
  have sx: "set xs = set ys"
    using m by (rule mset_eq_setD)
  have inj: "x = y" if hx: "x \<in> set ys" and hy: "y \<in> set ys" and e: "f x = f y" for x y
  proof -
    obtain i j where "i < length ys" "ys ! i = x" "j < length ys" "ys ! j = y"
      using hx hy by (auto simp: in_set_conv_nth)
    then show ?thesis
      using key[of i] key[of j] e by auto
  qed
  show "mset ys = mset xs"
    using m by simp
  show "sorted (map f ys)"
    unfolding sorted_iff_nth_mono by (auto simp: key)
  fix k
  assume k: "k \<in> set ys"
  have 1: "filter (\<lambda>x. f k = f x) ys = [k]"
    by (rule filter_single[OF dys k]) (use inj k in auto)
  have 2: "filter (\<lambda>x. f k = f x) xs = [k]"
    by (rule filter_single[OF dxs]) (use inj k sx in auto)
  show "filter (\<lambda>x. f k = f x) ys = filter (\<lambda>x. f k = f x) xs"
    using 1 2 by simp
qed

lemma map_insort_key:
  "map h (insort_key (\<lambda>x. f (h x)) x ys) = insort_key f (h x) (map h ys)"
  by (induction ys) simp_all

lemma map_sort_key:
  "map h (sort_key (\<lambda>x. f (h x)) xs) = sort_key f (map h xs)"
  by (induction xs) (simp_all add: map_insort_key)

lemma order_key_stored: "order_key st = (\<lambda>c. stored_order st (col_id c))"
  by (rule ext) (simp add: order_key_def stored_order_def)

lemma mounted_ids:
  "map col_id (mounted_collections st loaded) = sort_key (stored_order st) (map col_id loaded)"
proof -
  have "map col_id (mounted_collections st loaded)
        = sort_key (stored_order st)
            (map col_id (map (\<lambda>c. c\<lparr>expanded :=
               (case st (col_id c) of None \<Rightarrow> False | Some x \<Rightarrow> ui_expanded x)\<rparr>) loaded))"
    unfolding mounted_collections_def order_key_stored by (rule map_sort_key)
  then show ?thesis
    by (simp add: comp_def)
qed

lemma onCollectionDrop_eq:
  assumes "draggedCollection s = Some S" "S \<noteq> []" "S \<noteq> T"
    "findIndex (\<lambda>c. col_id c = S) (collections s) = Some i"
    "findIndex (\<lambda>c. col_id c = T) (collections s) = Some j"
  shows "onCollectionDrop b T s
         = clear_collection_drag
             (saveCollectionOrder b
                (s\<lparr>collections := splice_in j (collections s ! i)
                                     (splice_out i (collections s))\<rparr>))"
  using assms
  by (simp add: onCollectionDrop_def truthy_def Let_def)

text \<open>
  C4, as the spec states it: after a collection drag reorder the order values are
  persisted and the startup sort restores the order. \<open>saveCollectionUIStates\<close>
  swallows a rejected write: with \<open>[C1, C2]\<close> and \<open>C2\<close> dropped on \<open>C1\<close> the
  list becomes \<open>[C2, C1]\<close>, nothing is stored, and sorting the reloaded
  \<open>[C1, C2]\<close> leaves it as \<open>[C1, C2]\<close>.
\<close>

theorem collection_order_counterexample:
  "map col_id (collections (onCollectionDrop write_rejecting_browser ''C1'' scenario_app))
   = [''C2'', ''C1'']
   \<and> ui_store (onCollectionDrop write_rejecting_browser ''C1'' scenario_app) ''C2'' = None
   \<and> ui_store (onCollectionDrop write_rejecting_browser ''C1'' scenario_app) ''C1'' = None
   \<and> map col_id
       (mounted_collections
          (ui_store (onCollectionDrop write_rejecting_browser ''C1'' scenario_app))
          [mk_collection ''C1'' ''g1'' [], mk_collection ''C2'' ''g1'' []])
     = [''C1'', ''C2'']"
  by (simp add: onCollectionDrop_def saveCollectionOrder_def loadCollectionUIStates_def
      saveCollectionUIStates_def called_def write_rejecting_browser_def ok_browser_def
      truthy_def clear_collection_drag_def Let_def scenario_app_def fixture_defs
      mounted_collections_def order_key_def)

text \<open>
  C4, amended: a collection dropped on another one is moved to that one's position in the
  list, whatever the store does. If the UI-state store is available and its write
  resolves, every collection of the reordered list then has its position in that list
  stored as order value under its id, and sorting any reloaded list of the same
  collections by the stored order values, as \<open>onMounted\<close> does, gives the ids in the
  reordered order again. If the store is unavailable or the write rejects, the stored UI
  states are left as they were. With \<open>[C1, C2]\<close> and a working store, dragging
  \<open>C2\<close> onto \<open>C1\<close> gives \<open>[C2, C1]\<close> and the stored order values
  \<open>C2: 0\<close>, \<open>C1: 1\<close>. Collection ids are bookmark ids: distinct and not empty.
\<close>

theorem collection_order_round_trip:
  assumes "draggedCollection s = Some S" and "S \<noteq> []" and "S \<noteq> T"
    and "findIndex (\<lambda>c. col_id c = S) (collections s) = Some i"
    and "findIndex (\<lambda>c. col_id c = T) (collections s) = Some j"
    and "distinct (map col_id (collections s))"
  shows "collections (onCollectionDrop b T s)
           = splice_in j (collections s ! i) (splice_out i (collections s))
       \<and> (storage_available b \<and> fst (storage_set_ok b (snd (storage_get_ok b (world s)))) \<longrightarrow>
            (\<forall>k<length (collections (onCollectionDrop b T s)).
               map_option ui_order
                 (ui_store (onCollectionDrop b T s)
                    (col_id (collections (onCollectionDrop b T s) ! k)))
               = Some k)
          \<and> (\<forall>loaded.
               mset (map col_id loaded)
               = mset (map col_id (collections (onCollectionDrop b T s))) \<longrightarrow>
               map col_id (mounted_collections (ui_store (onCollectionDrop b T s)) loaded)
               = map col_id (collections (onCollectionDrop b T s))))
       \<and> (\<not> (storage_available b \<and> fst (storage_set_ok b (snd (storage_get_ok b (world s)))))
            \<longrightarrow> ui_store (onCollectionDrop b T s) = ui_store s)
       \<and> map col_id (collections (onCollectionDrop ok_browser ''C1'' scenario_app)) = [''C2'', ''C1'']
       \<and> map_option ui_order (ui_store (onCollectionDrop ok_browser ''C1'' scenario_app) ''C2'') = Some 0
       \<and> map_option ui_order (ui_store (onCollectionDrop ok_browser ''C1'' scenario_app) ''C1'') = Some 1"
proof -
  define cs where "cs = splice_in j (collections s ! i) (splice_out i (collections s))"
  define s1 where "s1 = s\<lparr>collections := cs\<rparr>"
  have i: "i < length (collections s)"
    using findIndex_Some[OF assms(4)] by simp
  have eq: "onCollectionDrop b T s = clear_collection_drag (saveCollectionOrder b s1)"
    unfolding s1_def cs_def by (rule onCollectionDrop_eq[OF assms(1-5)])
  have c: "collections (onCollectionDrop b T s) = cs"
    unfolding eq by (simp add: clear_collection_drag_def saveCollectionOrder_collections s1_def)
  have "mset cs = mset (collections s)"
    unfolding cs_def using i by (rule splice_move_mset)
  then have "mset (map col_id cs) = mset (map col_id (collections s))"
    by (metis mset_map)
  then have d: "distinct (map col_id cs)"
    using assms(6) by (metis mset_eq_imp_distinct_iff)
  have written: "(\<forall>k<length cs.
               map_option ui_order (ui_store (onCollectionDrop b T s) (col_id (cs ! k))) = Some k)
          \<and> (\<forall>loaded. mset (map col_id loaded) = mset (map col_id cs) \<longrightarrow>
               map col_id (mounted_collections (ui_store (onCollectionDrop b T s)) loaded)
               = map col_id cs)"
    if ok: "storage_available b \<and> fst (storage_set_ok b (snd (storage_get_ok b (world s))))"
  proof -
    define st0 where "st0 = (if fst (storage_get_ok b (world s1)) then ui_store s1 else Map.empty)"
    define st where "st = order_states 0 cs st0"
    have u: "ui_store (onCollectionDrop b T s) = st"
      unfolding eq st_def st0_def
      using ok saveCollectionOrder_written[of b s1]
      by (simp add: clear_collection_drag_def s1_def)
    have look: "st (col_id (cs ! k)) = Some \<lparr>ui_expanded = expanded (cs ! k), ui_order = k\<rparr>"
      if k: "k < length cs" for k
      unfolding st_def using order_states_nth[OF d k, of 0 st0] by simp
    have p2: "\<forall>k<length cs. map_option ui_order (st (col_id (cs ! k))) = Some k"
      by (simp add: look)
    have p3: "\<forall>loaded. mset (map col_id loaded) = mset (map col_id cs)
              \<longrightarrow> map col_id (mounted_collections st loaded) = map col_id cs"
    proof (intro allI impI)
      fix loaded :: "Collection list"
      assume m: "mset (map col_id loaded) = mset (map col_id cs)"
      have "sort_key (stored_order st) (map col_id loaded) = map col_id cs"
      proof (rule sort_key_restores[OF d _ m])
        fix k
        assume "k < length (map col_id cs)"
        then have k: "k < length cs" by simp
        show "stored_order st (map col_id cs ! k) = enat k"
          using look[OF k] k by (simp add: stored_order_def)
      qed
      then show "map col_id (mounted_collections st loaded) = map col_id cs"
        by (simp add: mounted_ids)
    qed
    show ?thesis
      unfolding u using p2 p3 by simp
  qed
  have unwritten: "ui_store (onCollectionDrop b T s) = ui_store s"
    if no: "\<not> (storage_available b \<and> fst (storage_set_ok b (snd (storage_get_ok b (world s)))))"
    unfolding eq
    using no saveCollectionOrder_unwritten[of b s1]
    by (simp add: clear_collection_drag_def s1_def)
  have sc: "map col_id (collections (onCollectionDrop ok_browser ''C1'' scenario_app)) = [''C2'', ''C1'']
       \<and> map_option ui_order (ui_store (onCollectionDrop ok_browser ''C1'' scenario_app) ''C2'') = Some 0
       \<and> map_option ui_order (ui_store (onCollectionDrop ok_browser ''C1'' scenario_app) ''C1'') = Some 1"
    by (simp add: onCollectionDrop_def saveCollectionOrder_def loadCollectionUIStates_def
        saveCollectionUIStates_def called_def ok_browser_def truthy_def clear_collection_drag_def
        Let_def scenario_app_def fixture_defs)
  show ?thesis
    unfolding c using written unwritten sc cs_def by blast
qed

theorem collection_order_round_trip_witness:
  "map col_id
     (mounted_collections (ui_store (onCollectionDrop ok_browser ''C1'' scenario_app))
        [mk_collection ''C1'' ''g1'' [], mk_collection ''C2'' ''g1'' []])
   = [''C2'', ''C1'']
   \<and> ui_store (onCollectionDrop write_rejecting_browser ''C1'' scenario_app)
     = ui_store scenario_app"
proof -
  have h1: "draggedCollection scenario_app = Some ''C2''"
    by (simp add: scenario_app_def)
  have h2: "''C2'' \<noteq> []"
    by simp
  have h3: "''C2'' \<noteq> ''C1''"
    by simp
  have h4: "findIndex (\<lambda>c. col_id c = ''C2'') (collections scenario_app) = Some 1"
    by (simp add: scenario_app_def fixture_defs)
  have h5: "findIndex (\<lambda>c. col_id c = ''C1'') (collections scenario_app) = Some 0"
    by (simp add: scenario_app_def fixture_defs)
  have h6: "distinct (map col_id (collections scenario_app))"
    by (simp add: scenario_app_def fixture_defs)
  have h7: "storage_available ok_browser
            \<and> fst (storage_set_ok ok_browser (snd (storage_get_ok ok_browser (world scenario_app))))"
    by (simp add: ok_browser_def)
  have h8: "\<not> (storage_available write_rejecting_browser
               \<and> fst (storage_set_ok write_rejecting_browser
                        (snd (storage_get_ok write_rejecting_browser (world scenario_app)))))"
    by (simp add: write_rejecting_browser_def ok_browser_def)
  note t = collection_order_round_trip [OF h1 h2 h3 h4 h5 h6, where b=ok_browser]
  note f = collection_order_round_trip [OF h1 h2 h3 h4 h5 h6, where b=write_rejecting_browser]
  have ids: "map col_id (collections (onCollectionDrop ok_browser ''C1'' scenario_app))
             = [''C2'', ''C1'']"
    by (rule t [THEN conjunct2, THEN conjunct2, THEN conjunct2, THEN conjunct1])
  have m: "mset (map col_id [mk_collection ''C1'' ''g1'' [], mk_collection ''C2'' ''g1'' []])
           = mset (map col_id (collections (onCollectionDrop ok_browser ''C1'' scenario_app)))"
    unfolding ids by (simp add: mk_collection_def)
  have r: "map col_id
             (mounted_collections (ui_store (onCollectionDrop ok_browser ''C1'' scenario_app))
                [mk_collection ''C1'' ''g1'' [], mk_collection ''C2'' ''g1'' []])
           = map col_id (collections (onCollectionDrop ok_browser ''C1'' scenario_app))"
    by (rule t [THEN conjunct2, THEN conjunct1, rule_format, OF h7, THEN conjunct2,
          rule_format, OF m])
  have u: "ui_store (onCollectionDrop write_rejecting_browser ''C1'' scenario_app)
           = ui_store scenario_app"
    by (rule f [THEN conjunct2, THEN conjunct2, THEN conjunct1, rule_format, OF h8])
  show ?thesis
    using r ids u by simp
qed

end
